(* ===== verification/Prelude.thy ===== *)
theory Prelude
  imports Complex_Main "HOL-Library.Sublist" "HOL-Library.Multiset"
begin

text \<open>
  Shared vocabulary of the development: Python's \<open>str\<close> as a list of Unicode code
  points, the string methods of \<open>src/backend/app.py\<close> uses (\<open>strip\<close>, \<open>split\<close>,
  \<open>join\<close>, \<open>lower\<close>), the exceptions the code can raise, and the generic lemmas on
  lists that the component theories share.
\<close>

section \<open>Python strings as code-point lists\<close>

named_theorems str_defs "definitions of the Python string primitives, unfolded on literals"

type_synonym ustr = "nat list"

text \<open>A HOL string literal read as the code points of its (ASCII) characters.\<close>

definition ascii :: "string \<Rightarrow> ustr" where
  "ascii s = map of_char s"

abbreviation cp_newline :: nat where "cp_newline \<equiv> 10"
abbreviation cp_space :: nat where "cp_space \<equiv> 32"
abbreviation cp_dot :: nat where "cp_dot \<equiv> 46"
abbreviation cp_qmark :: nat where "cp_qmark \<equiv> 63"
abbreviation cp_hyphen :: nat where "cp_hyphen \<equiv> 45"
abbreviation cp_bullet :: nat where "cp_bullet \<equiv> 8226"

text \<open>
  \<open>str.isspace\<close> and the regular-expression class \<open>\s\<close> of CPython
  (\<open>_PyUnicode_IsWhitespace\<close>): the same set of code points.
\<close>

definition is_space :: "nat \<Rightarrow> bool" where
  "is_space c \<longleftrightarrow>
     (9 \<le> c \<and> c \<le> 13) \<or> (28 \<le> c \<and> c \<le> 32) \<or> c = 133 \<or> c = 160 \<or> c = 5760 \<or>
     (8192 \<le> c \<and> c \<le> 8202) \<or> c = 8232 \<or> c = 8233 \<or> c = 8239 \<or> c = 8287 \<or> c = 12288"

definition is_digit :: "nat \<Rightarrow> bool" where
  "is_digit c \<longleftrightarrow> 48 \<le> c \<and> c \<le> 57"

definition is_upper :: "nat \<Rightarrow> bool" where
  "is_upper c \<longleftrightarrow> 65 \<le> c \<and> c \<le> 90"

definition is_lower :: "nat \<Rightarrow> bool" where
  "is_lower c \<longleftrightarrow> 97 \<le> c \<and> c \<le> 122"

text \<open>The class \<open>\w\<close> on the ASCII range: letters, digits and the underscore.\<close>

definition is_word :: "nat \<Rightarrow> bool" where
  "is_word c \<longleftrightarrow> is_upper c \<or> is_lower c \<or> is_digit c \<or> c = 95"

declare is_space_def [str_defs] is_digit_def [str_defs] is_upper_def [str_defs]
  is_lower_def [str_defs] is_word_def [str_defs] ascii_def [str_defs]

subsection \<open>\<open>str.strip\<close>, \<open>str.lower\<close>\<close>

definition py_lstrip :: "ustr \<Rightarrow> ustr" where
  "py_lstrip s = dropWhile is_space s"

definition py_rstrip :: "ustr \<Rightarrow> ustr" where
  "py_rstrip s = rev (dropWhile is_space (rev s))"

definition py_strip :: "ustr \<Rightarrow> ustr" where
  "py_strip s = py_rstrip (py_lstrip s)"

definition py_lower :: "ustr \<Rightarrow> ustr" where
  "py_lower s = map (\<lambda>c. if is_upper c then c + 32 else c) s"

declare py_lstrip_def [str_defs] py_rstrip_def [str_defs] py_strip_def [str_defs]
  py_lower_def [str_defs]

subsection \<open>\<open>str.split(sep)\<close> and \<open>sep.join(xs)\<close>\<close>

text \<open>
  \<open>s.split(sep)\<close> with a non-empty separator: scan left to right, cut at every
  non-overlapping occurrence of \<open>sep\<close>; \<open>cur\<close> is the piece read so far. An empty
  separator raises \<open>ValueError\<close> in Python; the code only splits at \<open>". "\<close>.
\<close>

function py_split_acc :: "ustr \<Rightarrow> ustr \<Rightarrow> ustr \<Rightarrow> ustr list" where
  "py_split_acc sep cur s =
     (if s = [] then [cur]
      else if sep \<noteq> [] \<and> prefix sep s then cur # py_split_acc sep [] (drop (length sep) s)
      else py_split_acc sep (cur @ [hd s]) (tl s))"
  by pat_completeness auto
termination
  by (relation "measure (\<lambda>(sep, cur, s). length s)") auto

declare py_split_acc.simps [simp del]

definition py_split :: "ustr \<Rightarrow> ustr \<Rightarrow> ustr list" where
  "py_split s sep = py_split_acc sep [] s"

fun py_join :: "ustr \<Rightarrow> ustr list \<Rightarrow> ustr" where
  "py_join sep [] = []"
| "py_join sep [x] = x"
| "py_join sep (x # y # zs) = x @ sep @ py_join sep (y # zs)"

section \<open>Ranking\<close>

text \<open>The first index of a maximal entry: the contract of \<open>torch.argmax\<close> and of a stable descending sort\<close>

definition is_first_max :: "'a::linorder list \<Rightarrow> nat \<Rightarrow> bool" where
  "is_first_max xs i \<longleftrightarrow>
     i < length xs \<and> list_all (\<lambda>x. x \<le> xs ! i) xs \<and> list_all (\<lambda>x. x < xs ! i) (take i xs)"

section \<open>Exceptions\<close>

text \<open>
  The exceptions the modelled code raises or lets through: \<open>OperationalError\<close>
  (sqlite3, e.g. no such table), \<open>ValueError\<close> (an inhomogeneous \<open>np.array\<close>),
  \<open>RuntimeError\<close> (a shape or dtype mismatch in \<open>torch\<close>), and \<open>ExtractionError\<close>
  for any exception of the external PDF text extractor.
\<close>

datatype py_error = OperationalError | ValueError | RuntimeError | ExtractionError

section \<open>Generic lemmas\<close>

subsection \<open>strip\<close>

lemma py_strip_Nil_iff [simp]: "py_strip s = [] \<longleftrightarrow> (\<forall>c\<in>set s. is_space c)"
proof -
  have "rev (dropWhile is_space (rev (dropWhile is_space s))) = [] \<longleftrightarrow> dropWhile is_space s = []"
    by (induction s rule: rev_induct) (auto simp: dropWhile_append)
  then show ?thesis
    by (simp add: py_strip_def py_rstrip_def py_lstrip_def dropWhile_eq_Nil_conv)
qed

lemma prefix_rev_dropWhile_rev: "prefix (rev (dropWhile P (rev t))) t"
proof -
  have "t = rev (takeWhile P (rev t) @ dropWhile P (rev t))" by simp
  then have "t = rev (dropWhile P (rev t)) @ rev (takeWhile P (rev t))" by (simp only: rev_append)
  then show ?thesis unfolding prefix_def by blast
qed

lemma dropWhile_prefix_dropWhile:
  assumes "prefix u (dropWhile P s)"
  shows "dropWhile P u = u"
proof (cases u)
  case Nil
  then show ?thesis by simp
next
  case (Cons c cs)
  with assms obtain r where "dropWhile P s = c # cs @ r" by (auto simp: prefix_def)
  then have "\<not> P c" by (simp add: dropWhile_eq_Cons_conv)
  with Cons show ?thesis by simp
qed

lemma py_strip_sublist: "sublist (py_strip s) s"
proof -
  have "suffix (dropWhile is_space s) s"
    by (metis suffix_def takeWhile_dropWhile_id)
  moreover have "prefix (rev (dropWhile is_space (rev t))) t" for t :: ustr
    by (rule prefix_rev_dropWhile_rev)
  ultimately show ?thesis
    unfolding py_strip_def py_rstrip_def py_lstrip_def
    by (meson prefix_imp_sublist sublist_order.dual_order.trans suffix_imp_sublist)
qed

lemma py_strip_idem [simp]: "py_strip (py_strip s) = py_strip s"
proof -
  let ?u = "rev (dropWhile is_space (rev (dropWhile is_space s)))"
  have "dropWhile is_space ?u = ?u"
    by (rule dropWhile_prefix_dropWhile [OF prefix_rev_dropWhile_rev])
  then show ?thesis by (simp add: py_strip_def py_rstrip_def py_lstrip_def)
qed

subsection \<open>split and join\<close>

lemma py_split_acc_ne [simp]: "py_split_acc sep cur s \<noteq> []"
  by (induction sep cur s rule: py_split_acc.induct) (subst py_split_acc.simps, auto)

lemma py_join_split_acc:
  "sep \<noteq> [] \<Longrightarrow> py_join sep (py_split_acc sep cur s) = cur @ s"
proof (induction sep cur s rule: py_split_acc.induct)
  case (1 sep cur s)
  show ?case
  proof (cases "s = []")
    case True
    then show ?thesis by (simp add: py_split_acc.simps)
  next
    case s: False
    show ?thesis
    proof (cases "prefix sep s")
      case True
      obtain p r where "py_split_acc sep [] (drop (length sep) s) = p # r"
        by (cases "py_split_acc sep [] (drop (length sep) s)") auto
      with True s "1.IH"(1) "1.prems" show ?thesis
        by (subst py_split_acc.simps) (auto simp: prefix_def)
    next
      case False
      with s "1.IH"(2) "1.prems" show ?thesis
        by (subst py_split_acc.simps) simp
    qed
  qed
qed

subsection \<open>Ranking\<close>

lemma is_first_max_iff:
  "is_first_max xs i \<longleftrightarrow>
     i < length xs \<and> (\<forall>j<length xs. xs ! j \<le> xs ! i) \<and> (\<forall>j<i. xs ! j < xs ! i)"
  unfolding is_first_max_def list_all_length by auto

lemma is_first_max_unique: "is_first_max xs i \<Longrightarrow> is_first_max xs j \<Longrightarrow> i = j"
  unfolding is_first_max_iff by (metis linorder_neqE_nat not_less)

lemma is_first_max_exists:
  assumes "xs \<noteq> []"
  shows "\<exists>i. is_first_max xs i"
proof -
  define m where "m = Max (set xs)"
  from assms have "m \<in> set xs" by (simp add: m_def)
  then obtain j where j: "j < length xs" "xs ! j = m" by (auto simp: in_set_conv_nth)
  have le: "xs ! k \<le> m" if "k < length xs" for k
    using that by (simp add: m_def)
  let ?i = "LEAST i. i < length xs \<and> xs ! i = m"
  have i: "?i < length xs \<and> xs ! ?i = m"
    by (rule LeastI [of _ j]) (use j in simp)
  have before: "xs ! k \<noteq> m" if "k < ?i" for k
    using not_less_Least [OF that] i that by auto
  have "\<exists>i. i < length xs \<and> xs ! i = m \<and> (\<forall>k<i. xs ! k \<noteq> m)"
    using i before by blast
  then obtain i where i1: "i < length xs" and i2: "xs ! i = m" and i3: "\<forall>k<i. xs ! k \<noteq> m"
    by blast
  have "\<forall>k<i. xs ! k < xs ! i"
    using i1 i2 i3 le by (simp add: order.strict_iff_order)
  with i1 i2 le show ?thesis unfolding is_first_max_iff by blast
qed

end
