(* ===== verification/Regex_Split.thy ===== *)
theory Regex_Split
  imports Prelude
begin

text \<open>
  Python's \<open>re.split(pattern, s)\<close>, the primitive both splitters of
  \<open>src/backend/app.py\<close> are built on (\<open>extract_pdf_text\<close>, line 35;
  \<open>extract_best_sentence\<close>, line 161). A compiled pattern is modelled by a matcher:
  given the whole string and a start position \<open>p\<close>, it returns the end of the match
  found at \<open>p\<close> and the texts of the pattern's capture groups, or \<open>None\<close>.
  Lookbehind assertions read the string before \<open>p\<close>, which is why the matcher sees
  all of \<open>s\<close>. The scan is CPython's \<open>pattern_split\<close>: search from position \<open>p\<close>
  upward; at a match \<open>[p, e)\<close> emit \<open>s[last:p]\<close> and the groups, continue at
  \<open>e\<close>; at the end emit \<open>s[last:]\<close>.
\<close>

type_synonym matcher = "ustr \<Rightarrow> nat \<Rightarrow> (nat \<times> ustr list) option"

definition slice :: "ustr \<Rightarrow> nat \<Rightarrow> nat \<Rightarrow> ustr" where
  "slice s i j = take (j - i) (drop i s)"

text \<open>
  A match counts when it is non-empty and inside the string. Both patterns of the
  program only match non-empty text (\<open>nonempty_matcher\<close> below); the empty-match rule
  of Python 3.7 is therefore never exercised and not modelled.
\<close>

definition valid_match :: "ustr \<Rightarrow> nat \<Rightarrow> nat \<Rightarrow> bool" where
  "valid_match s p e \<longleftrightarrow> p < e \<and> e \<le> length s"

function re_split_from :: "matcher \<Rightarrow> ustr \<Rightarrow> nat \<Rightarrow> nat \<Rightarrow> ustr list" where
  "re_split_from m s lst p =
     (if length s < p then [drop lst s]
      else (case m s p of
              Some (e, gs) \<Rightarrow>
                if valid_match s p e
                then slice s lst p # gs @ re_split_from m s e e
                else re_split_from m s lst (Suc p)
            | None \<Rightarrow> re_split_from m s lst (Suc p)))"
  by pat_completeness auto
termination
  by (relation "measure (\<lambda>(m, s, lst, p). Suc (length s) - p)")
    (auto simp: valid_match_def)

declare re_split_from.simps [simp del]

definition re_split :: "matcher \<Rightarrow> ustr \<Rightarrow> ustr list" where
  "re_split m s = re_split_from m s 0 0"

definition nonempty_matcher :: "matcher \<Rightarrow> bool" where
  "nonempty_matcher m \<longleftrightarrow> (\<forall>s p e gs. m s p = Some (e, gs) \<longrightarrow> valid_match s p e)"

text \<open>The groups of a match spell out the matched text (one group around the whole pattern).\<close>

definition groups_cover :: "matcher \<Rightarrow> ustr \<Rightarrow> bool" where
  "groups_cover m s \<longleftrightarrow> (\<forall>p e gs. m s p = Some (e, gs) \<longrightarrow> concat gs = slice s p e)"

text \<open>The pattern has no capture group: the matched text is dropped.\<close>

definition no_groups :: "matcher \<Rightarrow> ustr \<Rightarrow> bool" where
  "no_groups m s \<longleftrightarrow> (\<forall>p e gs. m s p = Some (e, gs) \<longrightarrow> gs = [])"

fun weave :: "'a list list \<Rightarrow> 'a list list \<Rightarrow> 'a list" where
  "weave [] ys = []"
| "weave [x] ys = x"
| "weave (x # xs) [] = x @ concat xs"
| "weave (x # xs) (y # ys) = x @ y @ weave xs ys"

section \<open>Properties of the scan\<close>

lemma slice_append_drop:
  "i \<le> j \<Longrightarrow> slice s i j @ drop j s = drop i s"
  by (simp add: slice_def) (metis append_take_drop_id drop_drop le_add_diff_inverse2)

lemma re_split_from_ne [simp]: "re_split_from m s lst p \<noteq> []"
  by (induction m s lst p rule: re_split_from.induct)
    (subst re_split_from.simps, auto split: option.splits)

lemma re_split_ne [simp]: "re_split m s \<noteq> []"
  by (simp add: re_split_def)

text \<open>Round trip: with the matched text kept as a group, the pieces spell the input.\<close>

lemma concat_re_split_from:
  assumes "groups_cover m s" and "lst \<le> p"
  shows "concat (re_split_from m s lst p) = drop lst s"
  using assms
proof (induction m s lst p rule: re_split_from.induct)
  case (1 m s lst p)
  show ?case
  proof (cases "length s < p")
    case True
    then show ?thesis by (simp add: re_split_from.simps)
  next
    case False
    show ?thesis
    proof (cases "m s p")
      case None
      with False "1.IH" "1.prems" show ?thesis
        by (subst re_split_from.simps) simp
    next
      case (Some r)
      obtain e gs where r: "r = (e, gs)" by (cases r)
      show ?thesis
      proof (cases "valid_match s p e")
        case True
        then have "p < e" by (simp add: valid_match_def)
        from "1.prems"(1) Some r have "concat gs = slice s p e"
          unfolding groups_cover_def by blast
        with "1.IH" False Some r True "1.prems" \<open>p < e\<close>
        show ?thesis
          by (subst re_split_from.simps)
            (simp add: slice_append_drop)
      next
        case False
        with \<open>\<not> length s < p\<close> Some r "1.IH" "1.prems" show ?thesis
          by (subst re_split_from.simps) simp
      qed
    qed
  qed
qed

lemma concat_re_split: "groups_cover m s \<Longrightarrow> concat (re_split m s) = s"
  by (simp add: re_split_def concat_re_split_from)

text \<open>A position range where the pattern never matches leaves the rest in one piece.\<close>

lemma re_split_from_no_match:
  assumes "\<forall>q. p \<le> q \<longrightarrow> q \<le> length s \<longrightarrow> m s q = None"
  shows "re_split_from m s lst p = [drop lst s]"
  using assms
proof (induction m s lst p rule: re_split_from.induct)
  case (1 m s lst p)
  show ?case
  proof (cases "length s < p")
    case True
    then show ?thesis by (simp add: re_split_from.simps)
  next
    case False
    with "1.prems" have "m s p = None" by simp
    with False "1.IH" "1.prems" show ?thesis
      by (subst re_split_from.simps) simp
  qed
qed

lemma re_split_from_skip:
  assumes "\<forall>q. p \<le> q \<longrightarrow> q < p' \<longrightarrow> m s q = None" and "p \<le> p'" and "p' \<le> length s"
  shows "re_split_from m s lst p = re_split_from m s lst p'"
  using assms
proof (induction "p' - p" arbitrary: p)
  case 0
  then show ?case by simp
next
  case (Suc n)
  then have "p < p'" and "m s p = None" by simp_all
  then have "re_split_from m s lst p = re_split_from m s lst (Suc p)"
    using Suc.prems(3) by (simp add: re_split_from.simps [of m s lst p])
  also have "\<dots> = re_split_from m s lst p'"
    using Suc.hyps(1) [of "Suc p"] Suc.hyps(2) Suc.prems \<open>p < p'\<close> by simp
  finally show ?case .
qed

lemma weave_Cons_Cons:
  "xs \<noteq> [] \<Longrightarrow> weave (x # xs) (y # ys) = x @ y @ weave xs ys"
  by (cases xs) auto

lemma sublist_weave: "x \<in> set xs \<Longrightarrow> length ys + 1 = length xs \<Longrightarrow> sublist x (weave xs ys)"
proof (induction xs ys rule: weave.induct)
  case (4 x1 x2 xs y ys)
  show ?case
  proof (cases "x = x1")
    case True
    then show ?thesis by simp
  next
    case False
    with "4.prems" "4.IH" have "sublist x (weave (x2 # xs) ys)" by simp
    then have "sublist x ((x1 @ y) @ weave (x2 # xs) ys)"
      by (rule sublist_order.order.trans [OF _ sublist_append_leftI])
    then show ?thesis by simp
  qed
qed auto

text \<open>
  Round trip for a pattern without groups: the input is the pieces woven with the
  matched texts that the split dropped.
\<close>

definition dropped_match :: "matcher \<Rightarrow> ustr \<Rightarrow> ustr \<Rightarrow> bool" where
  "dropped_match m s x \<longleftrightarrow> (\<exists>q e. m s q = Some (e, []) \<and> valid_match s q e \<and> x = slice s q e)"

lemma weave_re_split_from:
  assumes "no_groups m s" and "lst \<le> p"
  shows "\<exists>seps. length seps + 1 = length (re_split_from m s lst p) \<and>
           (\<forall>x\<in>set seps. dropped_match m s x) \<and>
           weave (re_split_from m s lst p) seps = drop lst s"
  using assms
proof (induction m s lst p rule: re_split_from.induct)
  case (1 m s lst p)
  show ?case
  proof (cases "length s < p")
    case True
    then show ?thesis by (simp add: re_split_from.simps)
  next
    case False
    show ?thesis
    proof (cases "m s p")
      case None
      with False "1.IH" "1.prems" show ?thesis
        by (simp add: re_split_from.simps [of m s lst p])
    next
      case (Some r)
      obtain e gs where r: "r = (e, gs)" by (cases r)
      from "1.prems"(1) Some r have gs: "gs = []"
        unfolding no_groups_def by blast
      show ?thesis
      proof (cases "valid_match s p e")
        case True
        then have "p < e" by (simp add: valid_match_def)
        from "1.IH"(2) [OF False Some r [symmetric] True "1.prems"(1) order_refl] obtain seps where
          len: "length seps + 1 = length (re_split_from m s e e)" and
          sep: "\<forall>x\<in>set seps. dropped_match m s x" and
          wv: "weave (re_split_from m s e e) seps = drop e s"
          by auto
        have eq: "re_split_from m s lst p = slice s lst p # re_split_from m s e e"
          using False Some r True gs by (simp add: re_split_from.simps [of m s lst p])
        have "dropped_match m s (slice s p e)"
          using Some r True gs by (auto simp: dropped_match_def)
        moreover have "weave (slice s lst p # re_split_from m s e e) (slice s p e # seps) = drop lst s"
          using wv \<open>p < e\<close> "1.prems"(2)
          by (simp add: weave_Cons_Cons slice_append_drop)
        ultimately show ?thesis
          using eq len sep by (intro exI [of _ "slice s p e # seps"]) simp
      next
        case False
        with \<open>\<not> length s < p\<close> Some r "1.IH" "1.prems" show ?thesis
          by (simp add: re_split_from.simps [of m s lst p])
      qed
    qed
  qed
qed

lemma weave_re_split:
  "no_groups m s \<Longrightarrow> \<exists>seps. length seps + 1 = length (re_split m s) \<and>
     (\<forall>x\<in>set seps. dropped_match m s x) \<and> weave (re_split m s) seps = s"
  unfolding re_split_def using weave_re_split_from [of m s 0 0] by simp

end
