(* ===== verification/Segmenter.thy ===== *)
theory Segmenter
  imports Regex_Split
begin

text \<open>
  The segmenter, \<open>extract_pdf_text\<close> (\<open>src/backend/app.py\<close>, lines 27--40): the
  text returned by the external extractor is split with
  \<open>re.split(r"(?<=\n)([0-9]+\.[0-9]+|[-\<bullet>]|\n{2,})", text)\<close>, every piece is
  stripped, and empty pieces are dropped. The pattern's one capture group is the whole
  alternation, so \<open>re.split\<close> returns each matched marker as a piece of its own.
\<close>

section \<open>The chunk boundary pattern\<close>

definition digit_run :: "ustr \<Rightarrow> nat \<Rightarrow> nat" where
  "digit_run s p = length (takeWhile is_digit (drop p s))"

definition newline_run :: "ustr \<Rightarrow> nat \<Rightarrow> nat" where
  "newline_run s p = length (takeWhile (\<lambda>c. c = cp_newline) (drop p s))"

text \<open>
  The first alternative \<open>[0-9]+\.[0-9]+\<close>: both digit runs are greedy, and giving
  a digit back cannot make the dot match, so the match is the maximal one or none.
\<close>

definition numbered_marker_end :: "ustr \<Rightarrow> nat \<Rightarrow> nat option" where
  "numbered_marker_end s p =
     (let q = p + digit_run s p
      in if 0 < digit_run s p \<and> q < length s \<and> s ! q = cp_dot \<and> 0 < digit_run s (Suc q)
         then Some (Suc q + digit_run s (Suc q)) else None)"

text \<open>
  The whole pattern at position \<open>p\<close>: the lookbehind \<open>(?<=\n)\<close>, then the three
  alternatives in order (numbered marker, a hyphen or a bullet U+2022, two or more
  newlines, greedily). The group captures the matched text.
\<close>

definition chunk_match :: matcher where
  "chunk_match s p =
     (if 0 < p \<and> p \<le> length s \<and> s ! (p - 1) = cp_newline then
        (case numbered_marker_end s p of
           Some e \<Rightarrow> Some (e, [slice s p e])
         | None \<Rightarrow>
             if p < length s \<and> (s ! p = cp_hyphen \<or> s ! p = cp_bullet)
             then Some (Suc p, [[s ! p]])
             else if 2 \<le> newline_run s p
             then Some (p + newline_run s p, [slice s p (p + newline_run s p)])
             else None)
      else None)"

section \<open>The segmenter\<close>

text \<open>
  \<open>[chunk.strip() for chunk in chunks if chunk.strip()]\<close>: strip every piece and keep
  the non-empty results, in order.
\<close>

definition split_chunks :: "ustr \<Rightarrow> ustr list" where
  "split_chunks text = filter (\<lambda>c. c \<noteq> []) (map py_strip (re_split chunk_match text))"

text \<open>
  The extractor's result is \<open>Inr text\<close>, or \<open>Inl\<close> when \<open>extract_text\<close> raised.
  An empty text raises \<open>ValueError\<close> inside the \<open>try\<close>; every exception is caught,
  printed, and turned into the empty list.
\<close>

definition extract_pdf_text :: "py_error + ustr \<Rightarrow> ustr list" where
  "extract_pdf_text r =
     (case r of
        Inl _ \<Rightarrow> []
      | Inr text \<Rightarrow> if text = [] then [] else split_chunks text)"

section \<open>Properties\<close>

subsection \<open>The pattern\<close>

lemma digit_run_le: "digit_run s p \<le> length s - p"
  unfolding digit_run_def by (metis length_drop length_takeWhile_le)

lemma newline_run_le: "newline_run s p \<le> length s - p"
  unfolding newline_run_def by (metis length_drop length_takeWhile_le)

lemma numbered_marker_end_valid:
  "numbered_marker_end s p = Some e \<Longrightarrow> valid_match s p e"
  using digit_run_le [of s "Suc (p + digit_run s p)"]
  by (auto simp: numbered_marker_end_def valid_match_def Let_def split: if_splits)

lemma slice_Suc: "p < length s \<Longrightarrow> slice s p (Suc p) = [s ! p]"
  by (simp add: slice_def take_Suc_conv_app_nth)

lemma chunk_match_nonempty: "nonempty_matcher chunk_match"
  unfolding nonempty_matcher_def
proof (intro allI impI)
  fix s p e gs
  assume m: "chunk_match s p = Some (e, gs)"
  have "newline_run s p \<le> length s - p" by (rule newline_run_le)
  with m show "valid_match s p e"
    using numbered_marker_end_valid [of s p]
    by (auto simp: chunk_match_def valid_match_def split: if_splits option.splits)
qed

lemma chunk_match_groups_cover: "groups_cover chunk_match s"
  unfolding groups_cover_def chunk_match_def
  by (auto simp: slice_Suc split: if_splits option.splits)

lemmas chunk_match_props = chunk_match_nonempty chunk_match_groups_cover

subsection \<open>Pieces and chunks\<close>

lemma concat_re_split_chunks: "concat (re_split chunk_match t) = t"
  by (rule concat_re_split [OF chunk_match_groups_cover])

lemma sublist_concat: "x \<in> set xs \<Longrightarrow> sublist x (concat xs)"
proof (induction xs)
  case (Cons y ys)
  then show ?case
    by (auto intro: sublist_order.order.trans [OF _ sublist_append_leftI])
qed simp

lemma subseq_concat_filter_map:
  "(\<forall>x\<in>set xs. subseq (f x) x) \<Longrightarrow> subseq (concat (filter P (map f xs))) (concat xs)"
proof (induction xs)
  case (Cons x xs)
  then have "subseq (concat (filter P (map f xs))) (concat xs)" and "subseq (f x) x"
    by simp_all
  then show ?case
    by (auto intro: list_emb_append_mono list_emb_append2)
qed simp

lemma split_chunks_wf: "c \<in> set (split_chunks t) \<Longrightarrow> c \<noteq> [] \<and> py_strip c = c"
  by (auto simp: split_chunks_def)

lemma split_chunks_sublist: "c \<in> set (split_chunks t) \<Longrightarrow> sublist c t"
proof -
  assume "c \<in> set (split_chunks t)"
  then obtain x where x: "x \<in> set (re_split chunk_match t)" and c: "c = py_strip x"
    by (auto simp: split_chunks_def)
  from x have "sublist x t"
    using sublist_concat [OF x] by (simp only: concat_re_split_chunks)
  with c show ?thesis
    using py_strip_sublist sublist_order.order.trans by blast
qed

lemma split_chunks_blank: "\<forall>c\<in>set t. is_space c \<Longrightarrow> split_chunks t = []"
proof -
  assume blank: "\<forall>c\<in>set t. is_space c"
  have "py_strip x = []" if "x \<in> set (re_split chunk_match t)" for x
  proof -
    from that have "sublist x t"
      using sublist_concat [OF that] by (simp only: concat_re_split_chunks)
    with blank show ?thesis by (auto simp: sublist_def)
  qed
  then show ?thesis by (simp add: split_chunks_def filter_empty_conv)
qed

lemma extract_pdf_text_Inr: "extract_pdf_text (Inr t) = split_chunks t"
  by (simp add: extract_pdf_text_def split_chunks_blank)

lemma extract_pdf_text_wf_helper: "c \<in> set (extract_pdf_text r) \<Longrightarrow> c \<noteq> [] \<and> py_strip c = c"
  by (auto simp: extract_pdf_text_def split: sum.splits if_splits dest: split_chunks_wf)

text \<open>The definitions a concrete segmentation unfolds to, for evaluation by \<open>simp\<close>.\<close>

lemmas segment_eval = extract_pdf_text_def split_chunks_def re_split_def re_split_from.simps
  chunk_match_def numbered_marker_end_def digit_run_def newline_run_def slice_def
  valid_match_def str_defs

lemma chunk_match_beyond: "length s < q \<Longrightarrow> chunk_match s q = None"
  by (simp add: chunk_match_def)

lemma no_chunk_match_iff:
  "(\<forall>q. chunk_match s q = None) \<longleftrightarrow> list_all (\<lambda>q. chunk_match s q = None) [0..<Suc (length s)]"
proof
  assume "list_all (\<lambda>q. chunk_match s q = None) [0..<Suc (length s)]"
  then have "chunk_match s q = None" for q
    by (cases "length s < q") (auto simp: list_all_iff chunk_match_beyond)
  then show "\<forall>q. chunk_match s q = None" by blast
qed (simp add: list_all_iff)

section \<open>Claims\<close>

text \<open>
  C9: Every chunk the segmenter returns is non-empty and already stripped: the
  chunk invariant of the data model holds for the segmenter's output, whatever the
  extractor returned.
\<close>

theorem extract_pdf_text_chunks_wf:
  "c \<in> set (extract_pdf_text r) \<Longrightarrow> c \<noteq> [] \<and> py_strip c = c"
  by (rule extract_pdf_text_wf_helper)

lemma extract_pdf_text_chunks_wf_witness:
  "ascii ''Intro'' \<in> set (extract_pdf_text (Inr (ascii ''Intro\<newline>- x''))) \<and>
   ascii ''Intro'' \<noteq> [] \<and> py_strip (ascii ''Intro'') = ascii ''Intro''"
proof -
  have m: "ascii ''Intro'' \<in> set (extract_pdf_text (Inr (ascii ''Intro\<newline>- x'')))"
    by (simp add: segment_eval)
  show ?thesis using m extract_pdf_text_chunks_wf [OF m] by simp
qed

text \<open>
  C17: A text in which the boundary pattern matches nowhere and which is not
  blank yields exactly one chunk, the whole text stripped.
\<close>

theorem extract_pdf_text_no_marker:
  assumes "\<forall>q. chunk_match t q = None" and "py_strip t \<noteq> []"
  shows "extract_pdf_text (Inr t) = [py_strip t]"
proof -
  have "re_split chunk_match t = [t]"
    using re_split_from_no_match [of 0 t chunk_match 0] assms(1) by (simp add: re_split_def)
  moreover from assms(2) have "t \<noteq> []" by auto
  ultimately show ?thesis
    using assms(2) by (simp add: extract_pdf_text_def split_chunks_def)
qed

lemma extract_pdf_text_no_marker_witness:
  "(\<forall>q. chunk_match (ascii ''Total revenue.\<newline>Profit.'') q = None) \<and>
   py_strip (ascii ''Total revenue.\<newline>Profit.'') \<noteq> [] \<and>
   extract_pdf_text (Inr (ascii ''Total revenue.\<newline>Profit.'')) =
     [py_strip (ascii ''Total revenue.\<newline>Profit.'')]"
proof -
  have h1: "\<forall>q. chunk_match (ascii ''Total revenue.\<newline>Profit.'') q = None"
    unfolding no_chunk_match_iff by (simp add: segment_eval upt_rec)
  have h2: "py_strip (ascii ''Total revenue.\<newline>Profit.'') \<noteq> []"
    by (simp add: str_defs)
  show ?thesis using h1 h2 extract_pdf_text_no_marker [OF h1 h2] by blast
qed

text \<open>
  C4: Segmentation neither reorders nor duplicates text: the concatenated
  chunks are a subsequence of the original text.
\<close>

theorem extract_pdf_text_subseq: "subseq (concat (extract_pdf_text (Inr t))) t"
proof -
  have "\<forall>x\<in>set (re_split chunk_match t). subseq (py_strip x) x"
    by (simp add: py_strip_sublist sublist_imp_subseq)
  then have "subseq (concat (filter (\<lambda>c. c \<noteq> []) (map py_strip (re_split chunk_match t))))
               (concat (re_split chunk_match t))"
    by (rule subseq_concat_filter_map)
  then show ?thesis
    by (simp add: extract_pdf_text_Inr split_chunks_def concat_re_split_chunks)
qed

text \<open>
  C18: Every chunk is a contiguous piece of the extracted text.
\<close>

theorem extract_pdf_text_contiguous: "c \<in> set (extract_pdf_text (Inr t)) \<Longrightarrow> sublist c t"
  by (simp add: extract_pdf_text_Inr split_chunks_sublist)

lemma extract_pdf_text_contiguous_witness:
  "ascii ''x y'' \<in> set (extract_pdf_text (Inr (ascii ''a\<newline>'' @ [cp_bullet] @ ascii '' x y''))) \<and>
   sublist (ascii ''x y'') (ascii ''a\<newline>'' @ [cp_bullet] @ ascii '' x y'')"
proof -
  have m: "ascii ''x y'' \<in> set (extract_pdf_text (Inr (ascii ''a\<newline>'' @ [cp_bullet] @ ascii '' x y'')))"
    by (simp add: segment_eval)
  show ?thesis using m extract_pdf_text_contiguous [OF m] by blast
qed

text \<open>
  C19: An extraction failure, an empty text and a text of whitespace only all
  give no chunks.
\<close>

theorem extract_pdf_text_nothing:
  "r = Inl err \<or> (r = Inr t \<and> (\<forall>c\<in>set t. is_space c)) \<Longrightarrow> extract_pdf_text r = []"
  by (auto simp: extract_pdf_text_def split_chunks_blank)

lemma extract_pdf_text_nothing_witness:
  "(Inr (ascii '' \<newline> '') = (Inl ExtractionError :: py_error + ustr) \<or>
    (Inr (ascii '' \<newline> '') = Inr (ascii '' \<newline> '') \<and> (\<forall>c\<in>set (ascii '' \<newline> ''). is_space c))) \<and>
   extract_pdf_text (Inr (ascii '' \<newline> '')) = []"
proof -
  have h: "Inr (ascii '' \<newline> '') = (Inl ExtractionError :: py_error + ustr) \<or>
    (Inr (ascii '' \<newline> '') = Inr (ascii '' \<newline> '') \<and> (\<forall>c\<in>set (ascii '' \<newline> ''). is_space c))"
    by (simp add: str_defs)
  show ?thesis using h extract_pdf_text_nothing [OF h] by blast
qed

text \<open>
  C16: The matched boundary markers are not discarded: the pattern's
  alternation is a capture group, so a hyphen or bullet at the start of a line comes
  back as a chunk of its own (here: the first such line of the text).
\<close>

theorem extract_pdf_text_keeps_markers:
  assumes "cp_newline \<notin> set a" and "c = cp_hyphen \<or> c = cp_bullet"
  shows "[c] \<in> set (extract_pdf_text (Inr (a @ cp_newline # c # b)))"
proof -
  let ?s = "a @ cp_newline # c # b" and ?k = "length a"
  have none: "chunk_match ?s q = None" if "q < Suc ?k" for q
  proof (cases q)
    case (Suc q')
    with that have "?s ! (q - 1) = a ! q'" and "q' < ?k" by (simp_all add: nth_append)
    with assms(1) show ?thesis by (auto simp: chunk_match_def in_set_conv_nth)
  qed (simp add: chunk_match_def)
  have nd: "\<not> is_digit c" using assms(2) by (auto simp: is_digit_def)
  have "digit_run ?s (Suc ?k) = 0" using nd by (simp add: digit_run_def nth_append)
  then have "chunk_match ?s (Suc ?k) = Some (Suc (Suc ?k), [[c]])"
    using assms(2) by (auto simp: chunk_match_def numbered_marker_end_def nth_append)
  moreover have "valid_match ?s (Suc ?k) (Suc (Suc ?k))" by (simp add: valid_match_def)
  ultimately have "re_split_from chunk_match ?s 0 (Suc ?k) =
                     slice ?s 0 (Suc ?k) # [c] # re_split_from chunk_match ?s (Suc (Suc ?k)) (Suc (Suc ?k))"
    by (simp add: re_split_from.simps [of chunk_match ?s 0 "Suc ?k"])
  moreover have "re_split chunk_match ?s = re_split_from chunk_match ?s 0 (Suc ?k)"
    unfolding re_split_def by (rule re_split_from_skip) (use none in auto)
  moreover have "py_strip [c] = [c]" using assms(2) by (auto simp: str_defs)
  ultimately show ?thesis by (force simp: extract_pdf_text_Inr split_chunks_def)
qed

lemma extract_pdf_text_keeps_markers_witness:
  "cp_newline \<notin> set (ascii ''Intro'') \<and> (cp_hyphen = cp_hyphen \<or> cp_hyphen = cp_bullet) \<and>
   [cp_hyphen] \<in> set (extract_pdf_text (Inr (ascii ''Intro'' @ cp_newline # cp_hyphen # ascii '' item'')))"
proof -
  have h1: "cp_newline \<notin> set (ascii ''Intro'')" by (simp add: ascii_def)
  have h2: "cp_hyphen = cp_hyphen \<or> cp_hyphen = cp_bullet" by simp
  show ?thesis using h1 h2 extract_pdf_text_keeps_markers [OF h1 h2, of "ascii '' item''"] by blast
qed

subsection \<open>The specification's example\<close>

text \<open>
  The example document of the specification is not split: at the first newline of
  the blank-line run the lookbehind fails (it follows a period), and at the second
  only one newline is left, so the text stays one chunk, marker included.
\<close>

lemma extract_pdf_text_spec_example:
  "extract_pdf_text (Inr (ascii ''1.2 Revenue grew 10%.\<newline>\<newline>Profit fell 2%.'')) =
     [ascii ''1.2 Revenue grew 10%.\<newline>\<newline>Profit fell 2%.'']"
  by (simp add: segment_eval)

end
