(* ===== verification/Vector_Store.thy ===== *)
theory Vector_Store
  imports Segmenter
begin

text \<open>
  The vector store: the sqlite table \<open>pdf_chunks(id INTEGER PRIMARY KEY AUTOINCREMENT,
  chunk TEXT NOT NULL, embedding BLOB NOT NULL)\<close> of \<open>src/backend/app.py\<close>
  (created at lines 186--195), written by \<open>compute_and_store_embeddings\<close> (lines
  43--59) and read by \<open>load_data_from_db\<close> (lines 62--71). An embedding is a list of
  reals; \<open>pickle.dumps\<close>/\<open>pickle.loads\<close> of a numpy array restore it exactly, so the
  blob is the embedding itself. The table records the AUTOINCREMENT counter of
  \<open>sqlite_sequence\<close>, which \<open>DELETE\<close> does not reset.
\<close>

type_synonym embedding = "real list"

record row =
  row_id :: nat
  row_chunk :: ustr
  row_embedding :: embedding

record table =
  rows :: "row list"
  seq :: nat

text \<open>\<open>None\<close>: the table \<open>pdf_chunks\<close> does not exist.\<close>

type_synonym database = "table option"

definition empty_table :: table where
  "empty_table = \<lparr>rows = [], seq = 0\<rparr>"

text \<open>\<open>CREATE TABLE IF NOT EXISTS pdf_chunks (...)\<close>, lines 186--195.\<close>

definition create_table :: "database \<Rightarrow> database" where
  "create_table db = (case db of None \<Rightarrow> Some empty_table | Some t \<Rightarrow> Some t)"

text \<open>The two statements the ingestion executes (lines 54 and 57).\<close>

datatype stmt = Delete_all | Insert ustr embedding

text \<open>AUTOINCREMENT: one more than the largest rowid the table has ever used.\<close>

definition rowid_base :: "table \<Rightarrow> nat" where
  "rowid_base t = max (seq t) (fold max (map row_id (rows t)) 0)"

definition next_rowid :: "table \<Rightarrow> nat" where
  "next_rowid t = Suc (rowid_base t)"

fun exec_stmt :: "stmt \<Rightarrow> table \<Rightarrow> table" where
  "exec_stmt Delete_all t = t\<lparr>rows := []\<rparr>"
| "exec_stmt (Insert c e) t =
     t\<lparr>rows := rows t @ [\<lparr>row_id = next_rowid t, row_chunk = c, row_embedding = e\<rparr>],
       seq := next_rowid t\<rparr>"

text \<open>
  \<open>with sqlite3.connect(DATABASE) as conn: ...; conn.commit()\<close>: the statements run in
  one transaction. On a missing table the first statement raises
  \<open>OperationalError\<close>, the context manager rolls back and the exception propagates;
  the database keeps its old content (the caller keeps \<open>db\<close> on \<open>Inl\<close>).
\<close>

definition run_transaction :: "stmt list \<Rightarrow> database \<Rightarrow> py_error + database" where
  "run_transaction ss db =
     (case db of None \<Rightarrow> Inl OperationalError | Some t \<Rightarrow> Inr (Some (fold exec_stmt ss t)))"

text \<open>
  \<open>compute_and_store_embeddings(pdf_path)\<close>: \<open>extracted\<close> is what the external
  \<open>extract_text\<close> returned for the path, \<open>encode\<close> is \<open>model.encode\<close> on one chunk.
  No chunks: print and return, the table untouched. Otherwise delete every row and
  insert the chunks with their embeddings, in order.
\<close>

definition compute_and_store_embeddings ::
  "(ustr \<Rightarrow> embedding) \<Rightarrow> py_error + ustr \<Rightarrow> database \<Rightarrow> py_error + database" where
  "compute_and_store_embeddings encode extracted db =
     (let pdf_chunks = extract_pdf_text extracted
      in if pdf_chunks = [] then Inr db
         else let embeddings = map encode pdf_chunks
              in run_transaction
                   (Delete_all # map (\<lambda>(c, e). Insert c e) (zip pdf_chunks embeddings)) db)"

text \<open>
  \<open>SELECT chunk, embedding FROM pdf_chunks\<close>: a full scan of a rowid table, which
  sqlite returns in rowid order.
\<close>

definition select_all :: "table \<Rightarrow> row list" where
  "select_all t = sort_key row_id (rows t)"

text \<open>
  \<open>np.array(embeddings)\<close>: a list of equally long vectors becomes a matrix (the empty
  list an empty array); vectors of different lengths raise \<open>ValueError\<close> (numpy 1.24
  and later).
\<close>

definition np_array :: "embedding list \<Rightarrow> py_error + embedding list" where
  "np_array es =
     (case es of
        [] \<Rightarrow> Inr []
      | e # _ \<Rightarrow> if list_all (\<lambda>x. length x = length e) es then Inr es else Inl ValueError)"

definition load_data_from_db :: "database \<Rightarrow> py_error + ustr list \<times> embedding list" where
  "load_data_from_db db =
     (case db of
        None \<Rightarrow> Inl OperationalError
      | Some t \<Rightarrow>
          (let rs = select_all t
           in case np_array (map row_embedding rs) of
                Inl err \<Rightarrow> Inl err
              | Inr m \<Rightarrow> Inr (map row_chunk rs, m)))"

section \<open>Invariants\<close>

text \<open>
  The table invariant: row ids strictly increase along the table and never exceed the
  AUTOINCREMENT counter. The corpus invariant adds the data model of the chunks: a
  non-empty stripped text and an embedding of dimension \<open>d\<close>.
\<close>

definition table_inv :: "table \<Rightarrow> bool" where
  "table_inv t \<longleftrightarrow> sorted_wrt (<) (map row_id (rows t)) \<and> list_all (\<lambda>r. row_id r \<le> seq t) (rows t)"

definition corpus_inv :: "nat \<Rightarrow> table \<Rightarrow> bool" where
  "corpus_inv d t \<longleftrightarrow> table_inv t \<and>
     list_all (\<lambda>r. row_chunk r \<noteq> [] \<and> py_strip (row_chunk r) = row_chunk r \<and>
                   length (row_embedding r) = d) (rows t)"

text \<open>The rows that inserting \<open>ps\<close> after rowid \<open>b\<close> appends, one id after the other.\<close>

fun inserted_rows :: "nat \<Rightarrow> (ustr \<times> embedding) list \<Rightarrow> row list" where
  "inserted_rows b [] = []"
| "inserted_rows b ((c, e) # ps) =
     \<lparr>row_id = Suc b, row_chunk = c, row_embedding = e\<rparr> # inserted_rows (Suc b) ps"

section \<open>Lemmas\<close>

subsection \<open>AUTOINCREMENT\<close>

lemma fold_max_le_iff: "fold max xs a \<le> (n::nat) \<longleftrightarrow> a \<le> n \<and> (\<forall>x\<in>set xs. x \<le> n)"
  by (induction xs arbitrary: a) auto

lemma rowid_base_insert [simp]:
  "rowid_base (t\<lparr>rows := rows t @ [\<lparr>row_id = Suc (rowid_base t), row_chunk = c, row_embedding = e\<rparr>],
                 seq := Suc (rowid_base t)\<rparr>) = Suc (rowid_base t)"
  by (simp add: rowid_base_def max_def)

lemma rowid_base_delete [simp]: "rowid_base (t\<lparr>rows := []\<rparr>) = seq t"
  by (simp add: rowid_base_def)

lemma fold_insert:
  "fold exec_stmt (map (\<lambda>(c, e). Insert c e) ps) t =
     t\<lparr>rows := rows t @ inserted_rows (rowid_base t) ps,
       seq := (if ps = [] then seq t else rowid_base t + length ps)\<rparr>"
proof (induction ps arbitrary: t)
  case Nil
  then show ?case by simp
next
  case (Cons p ps)
  obtain c e where p: "p = (c, e)" by (cases p)
  have s: "seq (exec_stmt (Insert c e) t) = Suc (rowid_base t)"
    by (simp add: next_rowid_def)
  show ?case
    using Cons.IH [of "exec_stmt (Insert c e) t"] s
    by (simp add: p next_rowid_def)
qed

lemma inserted_rows_fields:
  "map row_chunk (inserted_rows b ps) = map fst ps"
  "map row_embedding (inserted_rows b ps) = map snd ps"
  "map row_id (inserted_rows b ps) = [Suc b..<Suc b + length ps]"
  by (induction b ps rule: inserted_rows.induct) (simp_all add: upt_conv_Cons del: upt_Suc)

lemma sorted_inserted_rows: "sorted_wrt (<) (map row_id (inserted_rows b ps))"
  by (simp only: inserted_rows_fields sorted_wrt_upt)

lemma select_all_inserted: "select_all (t\<lparr>rows := inserted_rows b ps, seq := n\<rparr>) = inserted_rows b ps"
  unfolding select_all_def
  by (simp add: sort_key_id_if_sorted strict_sorted_imp_sorted [OF sorted_inserted_rows])

lemma select_all_sorted: "table_inv t \<Longrightarrow> select_all t = rows t"
  unfolding select_all_def table_inv_def
  by (simp add: sort_key_id_if_sorted strict_sorted_imp_sorted)

lemma rowid_base_inv: "table_inv t \<Longrightarrow> rowid_base t = seq t"
proof -
  assume "table_inv t"
  then have "fold max (map row_id (rows t)) 0 \<le> seq t"
    by (simp add: table_inv_def list_all_iff fold_max_le_iff)
  then show ?thesis by (simp add: rowid_base_def)
qed

subsection \<open>Ingestion\<close>

text \<open>
  The whole effect of one ingestion: no chunks leaves the database as it was; a missing
  table is an \<open>OperationalError\<close>; otherwise the table holds exactly the new chunks,
  in order, under the ids that follow the old AUTOINCREMENT counter.
\<close>

lemma compute_and_store_embeddings_eq:
  "compute_and_store_embeddings encode r db =
     (if extract_pdf_text r = [] then Inr db
      else case db of
             None \<Rightarrow> Inl OperationalError
           | Some t \<Rightarrow> Inr (Some (t\<lparr>rows := inserted_rows (seq t)
                                   (zip (extract_pdf_text r) (map encode (extract_pdf_text r))),
                                 seq := seq t + length (extract_pdf_text r)\<rparr>)))"
  by (auto simp: compute_and_store_embeddings_def run_transaction_def fold_insert Let_def
      split: option.splits)

lemma np_array_fixed_dim:
  "list_all (\<lambda>x. length x = d) es \<Longrightarrow> np_array es = Inr es"
  by (cases es) (auto simp: np_array_def list_all_iff)

lemma load_inserted:
  assumes "list_all (\<lambda>x. length x = d) (map snd ps)"
  shows "load_data_from_db (Some (t\<lparr>rows := inserted_rows b ps, seq := n\<rparr>)) = Inr (map fst ps, map snd ps)"
  using assms
  by (simp add: load_data_from_db_def select_all_inserted inserted_rows_fields np_array_fixed_dim)

lemma create_table_inv: "db' = create_table db \<Longrightarrow> (\<forall>t. db = Some t \<longrightarrow> table_inv t) \<Longrightarrow>
  \<exists>t'. db' = Some t' \<and> table_inv t'"
  by (auto simp: create_table_def empty_table_def table_inv_def split: option.splits)

lemma list_all_inserted_rows:
  "list_all P (inserted_rows b ps) \<longleftrightarrow>
     (\<forall>k<length ps. P \<lparr>row_id = Suc (b + k), row_chunk = fst (ps ! k), row_embedding = snd (ps ! k)\<rparr>)"
proof (induction b ps rule: inserted_rows.induct)
  case (2 b c e ps)
  then show ?case
    by (simp add: All_less_Suc2)
qed simp

lemma load_corpus_inv:
  "corpus_inv d t \<Longrightarrow> load_data_from_db (Some t) = Inr (map row_chunk (rows t), map row_embedding (rows t))"
  by (simp add: corpus_inv_def load_data_from_db_def select_all_sorted np_array_fixed_dim [where d = d]
      list_all_iff Let_def)

lemma load_data_aligned: "load_data_from_db db = Inr (cs, es) \<Longrightarrow> length cs = length es"
  by (auto simp: load_data_from_db_def np_array_def Let_def split: option.splits list.splits if_splits)

lemma corpus_inv_compute_and_store:
  assumes "corpus_inv d t" and "\<forall>c. length (encode c) = d"
    and "compute_and_store_embeddings encode r (Some t) = Inr (Some t')"
  shows "corpus_inv d t'"
proof (cases "extract_pdf_text r = []")
  case True
  with assms show ?thesis by (simp add: compute_and_store_embeddings_eq)
next
  case False
  let ?cs = "extract_pdf_text r"
  from assms(3) False have t': "t' = t\<lparr>rows := inserted_rows (seq t) (zip ?cs (map encode ?cs)),
                                       seq := seq t + length ?cs\<rparr>"
    by (simp add: compute_and_store_embeddings_eq)
  have "?cs ! k \<noteq> [] \<and> py_strip (?cs ! k) = ?cs ! k" if "k < length ?cs" for k
    using extract_pdf_text_wf_helper [OF nth_mem [OF that]] .
  with assms(2) show ?thesis
    unfolding t' corpus_inv_def table_inv_def
    by (simp add: sorted_inserted_rows list_all_inserted_rows)
qed

section \<open>Claims\<close>

text \<open>
  C3: Round trip of the store. When the document yields chunks and the table
  exists, ingesting it and loading the store back gives exactly those chunks, in
  order, each with the embedding the encoder computed for it, whatever the table held
  before (for an encoder of fixed dimension, as the sentence-transformer model is).
\<close>

theorem store_load_roundtrip:
  assumes "extract_pdf_text r \<noteq> []" and "db \<noteq> None" and "\<forall>c. length (encode c) = d"
  shows "\<exists>db'. compute_and_store_embeddings encode r db = Inr db' \<and>
           load_data_from_db db' = Inr (extract_pdf_text r, map encode (extract_pdf_text r))"
proof -
  from assms(2) obtain t where t: "db = Some t" by auto
  let ?cs = "extract_pdf_text r"
  have dim: "list_all (\<lambda>x. length x = d) (map snd (zip ?cs (map encode ?cs)))"
    using assms(3) by (simp add: list_all_iff)
  show ?thesis
    using assms(1) load_inserted [OF dim]
    by (simp add: compute_and_store_embeddings_eq t)
qed

lemma store_load_roundtrip_witness:
  "extract_pdf_text (Inr (ascii ''a\<newline>- b'')) \<noteq> [] \<and> Some empty_table \<noteq> None \<and>
   (\<forall>c. length ((\<lambda>c::ustr. [real (length c)]) c) = 1) \<and>
   (\<exists>db'. compute_and_store_embeddings (\<lambda>c. [real (length c)]) (Inr (ascii ''a\<newline>- b'')) (Some empty_table) = Inr db' \<and>
      load_data_from_db db' = Inr (extract_pdf_text (Inr (ascii ''a\<newline>- b'')),
                                   map (\<lambda>c. [real (length c)]) (extract_pdf_text (Inr (ascii ''a\<newline>- b'')))))"
proof -
  have h1: "extract_pdf_text (Inr (ascii ''a\<newline>- b'')) \<noteq> []" by (simp add: segment_eval)
  have h2: "Some empty_table \<noteq> None" by simp
  have h3: "\<forall>c. length ((\<lambda>c::ustr. [real (length c)]) c) = 1" by simp
  show ?thesis using h1 h2 h3 store_load_roundtrip [OF h1 h2 h3] by blast
qed

text \<open>
  C20: An ingestion that yields no chunks (the extractor failed, or the text is
  empty or blank) returns without touching the store: the previous corpus stays.
\<close>

theorem ingestion_without_chunks_keeps_store:
  "extract_pdf_text r = [] \<Longrightarrow> compute_and_store_embeddings encode r db = Inr db"
  by (simp add: compute_and_store_embeddings_def)

lemma ingestion_without_chunks_keeps_store_witness:
  "extract_pdf_text (Inl ExtractionError) = [] \<and>
   compute_and_store_embeddings (\<lambda>_. [1]) (Inl ExtractionError) (Some empty_table) = Inr (Some empty_table)"
proof -
  have h: "extract_pdf_text (Inl ExtractionError) = []" by (simp add: extract_pdf_text_def)
  show ?thesis using h ingestion_without_chunks_keeps_store [OF h] by blast
qed

text \<open>
  C8: Ingestion keeps the corpus invariant: row ids strictly increasing and
  bounded by the AUTOINCREMENT counter, every stored chunk non-empty and stripped,
  every stored embedding of the encoder's dimension.
\<close>

theorem compute_and_store_corpus_inv:
  assumes "corpus_inv d t" and "\<forall>c. length (encode c) = d"
    and "compute_and_store_embeddings encode r (Some t) = Inr (Some t')"
  shows "corpus_inv d t'"
  by (rule corpus_inv_compute_and_store [OF assms])

lemma compute_and_store_corpus_inv_witness:
  "corpus_inv 1 empty_table \<and> (\<forall>c. length ((\<lambda>c::ustr. [1::real]) c) = 1) \<and>
   compute_and_store_embeddings (\<lambda>c. [1]) (Inr (ascii ''a\<newline>- b'')) (Some empty_table) =
     Inr (Some \<lparr>rows = inserted_rows 0 (zip [ascii ''a'', ascii ''-'', ascii ''b''] [[1], [1], [1]]), seq = 3\<rparr>) \<and>
   corpus_inv 1 \<lparr>rows = inserted_rows 0 (zip [ascii ''a'', ascii ''-'', ascii ''b''] [[1], [1], [1]]), seq = 3\<rparr>"
proof -
  have h1: "corpus_inv 1 empty_table" by (simp add: corpus_inv_def table_inv_def empty_table_def)
  have h2: "\<forall>c. length ((\<lambda>c::ustr. [1::real]) c) = 1" by simp
  have h3: "compute_and_store_embeddings (\<lambda>c. [1]) (Inr (ascii ''a\<newline>- b'')) (Some empty_table) =
     Inr (Some \<lparr>rows = inserted_rows 0 (zip [ascii ''a'', ascii ''-'', ascii ''b''] [[1], [1], [1]]), seq = 3\<rparr>)"
    by (simp add: compute_and_store_embeddings_eq segment_eval empty_table_def)
  show ?thesis using h1 h2 h3 compute_and_store_corpus_inv [OF h1 h2 h3] by blast
qed

text \<open>
  C21: Ingestion numbers the new rows consecutively in input order, continuing
  after the AUTOINCREMENT counter: \<open>DELETE\<close> does not reset it, so a second
  ingestion does not start again at 1.
\<close>

theorem compute_and_store_rowids:
  assumes "extract_pdf_text r \<noteq> []"
    and "compute_and_store_embeddings encode r (Some t) = Inr (Some t')"
  shows "map row_id (rows t') = [Suc (seq t)..<Suc (seq t) + length (extract_pdf_text r)] \<and>
         seq t' = seq t + length (extract_pdf_text r)"
  using assms by (auto simp: compute_and_store_embeddings_eq inserted_rows_fields simp del: upt_Suc)

lemma compute_and_store_rowids_witness:
  "extract_pdf_text (Inr (ascii ''a\<newline>- b'')) \<noteq> [] \<and>
   compute_and_store_embeddings (\<lambda>c. [1]) (Inr (ascii ''a\<newline>- b'')) (Some \<lparr>rows = [], seq = 5\<rparr>) =
     Inr (Some \<lparr>rows = inserted_rows 5 (zip [ascii ''a'', ascii ''-'', ascii ''b''] [[1], [1], [1]]), seq = 8\<rparr>) \<and>
   map row_id (rows \<lparr>rows = inserted_rows 5 (zip [ascii ''a'', ascii ''-'', ascii ''b''] [[1], [1], [1]]), seq = 8\<rparr>) = [6, 7, 8]"
proof -
  have h1: "extract_pdf_text (Inr (ascii ''a\<newline>- b'')) \<noteq> []" by (simp add: segment_eval)
  have h2: "compute_and_store_embeddings (\<lambda>c. [1]) (Inr (ascii ''a\<newline>- b'')) (Some \<lparr>rows = [], seq = 5\<rparr>) =
     Inr (Some \<lparr>rows = inserted_rows 5 (zip [ascii ''a'', ascii ''-'', ascii ''b''] [[1], [1], [1]]), seq = 8\<rparr>)"
    by (simp add: compute_and_store_embeddings_eq segment_eval)
  have h3: "length (extract_pdf_text (Inr (ascii ''a\<newline>- b''))) = 3" by (simp add: segment_eval)
  show ?thesis using h1 h2 compute_and_store_rowids [OF h1 h2] h3 by (simp add: upt_rec)
qed

text \<open>
  Without the table (\<open>CREATE TABLE\<close> not run), ingesting a document
  with chunks and loading both raise \<open>OperationalError\<close>.
\<close>

theorem store_missing_table:
  "extract_pdf_text r \<noteq> [] \<Longrightarrow>
     compute_and_store_embeddings encode r None = Inl OperationalError \<and>
     load_data_from_db None = Inl OperationalError"
  by (simp add: compute_and_store_embeddings_eq load_data_from_db_def)

lemma store_missing_table_witness:
  "extract_pdf_text (Inr (ascii ''a'')) \<noteq> [] \<and>
   compute_and_store_embeddings (\<lambda>c. [1]) (Inr (ascii ''a'')) None = Inl OperationalError \<and>
   load_data_from_db None = Inl OperationalError"
proof -
  have h: "extract_pdf_text (Inr (ascii ''a'')) \<noteq> []" by (simp add: segment_eval)
  show ?thesis using h store_missing_table [OF h] by blast
qed

text \<open>
  C22: A store holding embeddings of two different dimensions cannot be
  loaded: \<open>np.array\<close> raises \<open>ValueError\<close>.
\<close>

theorem load_mixed_dimensions:
  assumes "table_inv t" and "r1 \<in> set (rows t)" and "r2 \<in> set (rows t)"
    and "length (row_embedding r1) \<noteq> length (row_embedding r2)"
  shows "load_data_from_db (Some t) = Inl ValueError"
proof -
  from assms(2) obtain r0 rs where rs: "rows t = r0 # rs" by (cases "rows t") auto
  have "\<exists>x\<in>set (rows t). length (row_embedding x) \<noteq> length (row_embedding r0)"
  proof (cases "length (row_embedding r1) = length (row_embedding r0)")
    case True
    show ?thesis by (intro bexI [OF _ assms(3)]) (use True assms(4) in simp)
  next
    case False
    show ?thesis by (intro bexI [OF _ assms(2)]) (use False in simp)
  qed
  then have "\<not> list_all (\<lambda>x. length x = length (row_embedding r0)) (map row_embedding (rows t))"
    by (auto simp: list_all_iff)
  then show ?thesis
    using select_all_sorted [OF assms(1)] rs
    by (simp add: load_data_from_db_def np_array_def)
qed

lemma load_mixed_dimensions_witness:
  "table_inv \<lparr>rows = [\<lparr>row_id = 1, row_chunk = ascii ''a'', row_embedding = [1]\<rparr>,
                      \<lparr>row_id = 2, row_chunk = ascii ''b'', row_embedding = [1, 0]\<rparr>], seq = 2\<rparr> \<and>
   load_data_from_db (Some \<lparr>rows = [\<lparr>row_id = 1, row_chunk = ascii ''a'', row_embedding = [1]\<rparr>,
                      \<lparr>row_id = 2, row_chunk = ascii ''b'', row_embedding = [1, 0]\<rparr>], seq = 2\<rparr>) = Inl ValueError"
proof -
  let ?r1 = "\<lparr>row_id = 1, row_chunk = ascii ''a'', row_embedding = [1::real]\<rparr>"
  let ?r2 = "\<lparr>row_id = 2, row_chunk = ascii ''b'', row_embedding = [1::real, 0]\<rparr>"
  let ?t = "\<lparr>rows = [?r1, ?r2], seq = 2\<rparr>"
  have h1: "table_inv ?t" by (simp add: table_inv_def)
  have h2: "?r1 \<in> set (rows ?t)" and h3: "?r2 \<in> set (rows ?t)" by simp_all
  have h4: "length (row_embedding ?r1) \<noteq> length (row_embedding ?r2)" by simp
  show ?thesis using h1 load_mixed_dimensions [OF h1 h2 h3 h4] by blast
qed

end
