(* ===== verification/Retrieval.thy ===== *)
theory Retrieval
  imports Vector_Store
begin

text \<open>
  The retrieval step of \<open>query\<close> (\<open>src/backend/app.py\<close>, lines 126--138): the
  cosine similarity of the query embedding with every stored embedding
  (\<open>util.pytorch_cos_sim\<close>), the index of the best one (\<open>torch.argmax\<close>) and the
  threshold test \<open>confidence_score < 0.5\<close>. Vectors are lists of reals: the float32
  rounding of torch is not modelled.
\<close>

section \<open>Cosine similarity\<close>

definition dot :: "real list \<Rightarrow> real list \<Rightarrow> real" where
  "dot a b = sum_list (map (\<lambda>(x, y). x * y) (zip a b))"

definition l2_norm :: "real list \<Rightarrow> real" where
  "l2_norm a = sqrt (dot a a)"

text \<open>
  \<open>cos_sim\<close> normalises both arguments with \<open>torch.nn.functional.normalize\<close>,
  which divides a vector by \<open>max(\<parallel>v\<parallel>, eps)\<close> with \<open>eps = 1e-12\<close>, and multiplies
  the normalised matrices.
\<close>

definition normalize_eps :: real where
  "normalize_eps = 1 / 10 ^ 12"

definition cos_sim :: "real list \<Rightarrow> real list \<Rightarrow> real" where
  "cos_sim a b = dot a b / (max (l2_norm a) normalize_eps * max (l2_norm b) normalize_eps)"

text \<open>
  \<open>util.pytorch_cos_sim(query_embedding, torch.tensor(embeddings))[0]\<close>: one row of
  similarities. The matrix product needs every stored row to have the query's length
  (else \<open>RuntimeError\<close>). An empty store is \<open>np.array([])\<close>, a one-dimensional
  float64 array of length 0: its batch has a row of length 0 and the wrong dtype, and
  the product raises \<open>RuntimeError\<close> too.
\<close>

definition pytorch_cos_sim :: "embedding \<Rightarrow> embedding list \<Rightarrow> py_error + real list" where
  "pytorch_cos_sim q m =
     (if m = [] then Inl RuntimeError
      else if list_all (\<lambda>r. length r = length q) m then Inr (map (cos_sim q) m)
      else Inl RuntimeError)"

section \<open>Arg-max\<close>

text \<open>
  \<open>torch.argmax\<close> on a vector: a left-to-right scan keeping the first maximal entry
  (\<open>bi\<close> its index, \<open>bv\<close> its value); an empty vector raises \<open>RuntimeError\<close>.
\<close>

fun argmax_acc :: "'a::linorder list \<Rightarrow> nat \<Rightarrow> nat \<Rightarrow> 'a \<Rightarrow> nat" where
  "argmax_acc [] i bi bv = bi"
| "argmax_acc (x # xs) i bi bv =
     (if bv < x then argmax_acc xs (Suc i) i x else argmax_acc xs (Suc i) bi bv)"

definition torch_argmax :: "'a::linorder list \<Rightarrow> py_error + nat" where
  "torch_argmax xs = (case xs of [] \<Rightarrow> Inl RuntimeError | x # ys \<Rightarrow> Inr (argmax_acc ys 1 0 x))"

section \<open>The retrieval step\<close>

datatype search_result = Out_of_scope | Best_match nat real

definition semantic_search :: "embedding \<Rightarrow> embedding list \<Rightarrow> py_error + search_result" where
  "semantic_search query_embedding embeddings =
     (case pytorch_cos_sim query_embedding embeddings of
        Inl err \<Rightarrow> Inl err
      | Inr similarities \<Rightarrow>
          (case torch_argmax similarities of
             Inl err \<Rightarrow> Inl err
           | Inr best_match_index \<Rightarrow>
               (let confidence_score = similarities ! best_match_index
                in if confidence_score < 1 / 2 then Inr Out_of_scope
                   else Inr (Best_match best_match_index confidence_score))))"

section \<open>Lemmas\<close>

subsection \<open>Arg-max\<close>

lemma argmax_acc_first_max:
  "is_first_max ps bi \<Longrightarrow> bv = ps ! bi \<Longrightarrow> i = length ps \<Longrightarrow>
     is_first_max (ps @ xs) (argmax_acc xs i bi bv)"
proof (induction xs arbitrary: ps i bi bv)
  case Nil
  then show ?case by simp
next
  case (Cons x xs)
  show ?case
  proof (cases "bv < x")
    case True
    have "is_first_max (ps @ [x]) (length ps)"
      using Cons.prems True
      by (auto simp: is_first_max_iff nth_append less_Suc_eq intro: order.strict_trans1)
    then have "is_first_max ((ps @ [x]) @ xs) (argmax_acc xs (Suc i) (length ps) x)"
      using Cons.IH [of "ps @ [x]" "length ps" x "Suc i"] Cons.prems by simp
    with True Cons.prems show ?thesis by simp
  next
    case False
    have "is_first_max (ps @ [x]) bi"
      using Cons.prems False
      by (auto simp: is_first_max_iff nth_append less_Suc_eq)
    then have "is_first_max ((ps @ [x]) @ xs) (argmax_acc xs (Suc i) bi bv)"
      using Cons.IH [of "ps @ [x]" bi bv "Suc i"] Cons.prems
      by (simp add: nth_append is_first_max_iff)
    with False show ?thesis by simp
  qed
qed

lemma torch_argmax_first_max: "torch_argmax (x # ys) = Inr i \<Longrightarrow> is_first_max (x # ys) i"
  using argmax_acc_first_max [of "[x]" 0 x 1 ys]
  by (simp add: torch_argmax_def is_first_max_def)

subsection \<open>Cosine similarity\<close>

lemma dot_Nil [simp]: "dot [] ys = 0" "dot xs [] = 0"
  by (simp_all add: dot_def)

lemma dot_Cons [simp]: "dot (x # xs) (y # ys) = x * y + dot xs ys"
  by (simp add: dot_def)

lemma dot_self_nonneg: "0 \<le> dot a a"
  by (induction a) simp_all

lemma dot_self_zero: "dot a a = 0 \<Longrightarrow> dot a b = 0"
proof (induction a arbitrary: b)
  case (Cons x xs)
  have h1: "0 \<le> x * x" and h2: "0 \<le> dot xs xs" by (simp_all add: dot_self_nonneg)
  from add_nonneg_eq_0_iff [OF h1 h2] Cons.prems have "x * x = 0" and "dot xs xs = 0"
    by simp_all
  then have "x = 0" and "dot xs xs = 0" by simp_all
  with Cons.IH show ?case by (cases b) simp_all
qed simp

lemma dot_quadratic:
  "length a = length b \<Longrightarrow>
     sum_list (map (\<lambda>(x, y). (x * t - y)\<^sup>2) (zip a b)) = t\<^sup>2 * dot a a - 2 * t * dot a b + dot b b"
  by (induction a b rule: list_induct2) (simp_all add: power2_eq_square algebra_simps)

lemma cauchy_schwarz_dot:
  assumes "length a = length b"
  shows "(dot a b)\<^sup>2 \<le> dot a a * dot b b"
proof (cases "dot a a = 0")
  case True
  then show ?thesis by (simp add: dot_self_zero dot_self_nonneg)
next
  case False
  with dot_self_nonneg [of a] have A: "0 < dot a a" by simp
  let ?t = "dot a b / dot a a"
  have "0 \<le> sum_list (map (\<lambda>(x, y). (x * ?t - y)\<^sup>2) (zip a b))"
    by (rule sum_list_nonneg) auto
  also have "\<dots> = ?t\<^sup>2 * dot a a - 2 * ?t * dot a b + dot b b"
    by (rule dot_quadratic [OF assms])
  also have "\<dots> = dot b b - (dot a b)\<^sup>2 / dot a a"
    using A by (simp add: power2_eq_square field_simps)
  finally have "(dot a b)\<^sup>2 / dot a a \<le> dot b b" by simp
  with A show ?thesis by (simp add: divide_le_eq mult.commute)
qed

lemma abs_dot_le_norms:
  "length a = length b \<Longrightarrow> \<bar>dot a b\<bar> \<le> l2_norm a * l2_norm b"
proof -
  assume "length a = length b"
  then have "(dot a b)\<^sup>2 \<le> dot a a * dot b b" by (rule cauchy_schwarz_dot)
  then have "sqrt ((dot a b)\<^sup>2) \<le> sqrt (dot a a * dot b b)" by (rule real_sqrt_le_mono)
  then show ?thesis by (simp add: l2_norm_def real_sqrt_mult)
qed

lemma normalize_eps_pos: "0 < normalize_eps"
  by (simp add: normalize_eps_def)

lemma cos_sim_bounds:
  "length a = length b \<Longrightarrow> -1 \<le> cos_sim a b \<and> cos_sim a b \<le> 1"
proof -
  assume len: "length a = length b"
  let ?ma = "max (l2_norm a) normalize_eps" and ?mb = "max (l2_norm b) normalize_eps"
  have pa: "0 < ?ma" and pb: "0 < ?mb" using normalize_eps_pos by auto
  have "\<bar>dot a b\<bar> \<le> l2_norm a * l2_norm b" by (rule abs_dot_le_norms [OF len])
  also have "\<dots> \<le> ?ma * ?mb"
    using normalize_eps_pos by (intro mult_mono) (auto simp: l2_norm_def dot_self_nonneg)
  finally have "\<bar>dot a b\<bar> / (?ma * ?mb) \<le> 1" using pa pb by simp
  then have "\<bar>cos_sim a b\<bar> \<le> 1"
    using pa pb by (simp add: cos_sim_def abs_divide abs_of_pos)
  then show ?thesis by linarith
qed

subsection \<open>The retrieval step\<close>

lemma pytorch_cos_sim_ok:
  "m \<noteq> [] \<Longrightarrow> list_all (\<lambda>r. length r = length q) m \<Longrightarrow> pytorch_cos_sim q m = Inr (map (cos_sim q) m)"
  by (simp add: pytorch_cos_sim_def)

lemma semantic_search_eq:
  assumes "m \<noteq> []" and "list_all (\<lambda>r. length r = length q) m"
  shows "\<exists>i. is_first_max (map (cos_sim q) m) i \<and>
           semantic_search q m =
             (if cos_sim q (m ! i) < 1 / 2 then Inr Out_of_scope
              else Inr (Best_match i (cos_sim q (m ! i))))"
proof -
  from assms(1) obtain r rs where m: "m = r # rs" by (cases m) auto
  obtain i where i: "torch_argmax (map (cos_sim q) m) = Inr i"
    by (simp add: m torch_argmax_def)
  then have fm: "is_first_max (map (cos_sim q) m) i"
    by (simp add: m torch_argmax_first_max)
  then have "i < length m" by (simp add: is_first_max_def)
  with i fm show ?thesis
    by (intro exI [of _ i]) (simp add: semantic_search_def pytorch_cos_sim_ok [OF assms] Let_def)
qed

lemma semantic_search_error_iff:
  "(\<exists>err. semantic_search q m = Inl err) \<longleftrightarrow> m = [] \<or> \<not> list_all (\<lambda>r. length r = length q) m"
proof
  assume "\<exists>err. semantic_search q m = Inl err"
  then show "m = [] \<or> \<not> list_all (\<lambda>r. length r = length q) m"
    using semantic_search_eq [of m q] by (auto split: if_splits)
next
  assume "m = [] \<or> \<not> list_all (\<lambda>r. length r = length q) m"
  then show "\<exists>err. semantic_search q m = Inl err"
    by (auto simp: semantic_search_def pytorch_cos_sim_def)
qed

lemma semantic_search_Best_match:
  assumes "semantic_search q m = Inr (Best_match i c)"
  shows "is_first_max (map (cos_sim q) m) i \<and> i < length m \<and> c = cos_sim q (m ! i) \<and>
         1 / 2 \<le> c \<and> c \<le> 1"
proof -
  from assms have dims: "m \<noteq> [] \<and> list_all (\<lambda>r. length r = length q) m"
    using semantic_search_error_iff [of q m] by auto
  then obtain k where k: "is_first_max (map (cos_sim q) m) k"
    and eq: "semantic_search q m = (if cos_sim q (m ! k) < 1 / 2 then Inr Out_of_scope
              else Inr (Best_match k (cos_sim q (m ! k))))"
    using semantic_search_eq by blast
  from eq assms have ik: "i = k" and c: "c = cos_sim q (m ! k)" and "\<not> c < 1 / 2"
    by (auto split: if_splits)
  moreover from k have kl: "k < length m" by (simp add: is_first_max_def)
  moreover have "c \<le> 1"
    using c cos_sim_bounds [of q "m ! k"] dims kl by (simp add: list_all_length)
  ultimately show ?thesis using k by simp
qed

lemma semantic_search_Out_of_scope_iff:
  assumes "m \<noteq> []" and "list_all (\<lambda>r. length r = length q) m"
  shows "semantic_search q m = Inr Out_of_scope \<longleftrightarrow> (\<forall>j<length m. cos_sim q (m ! j) < 1 / 2)"
proof -
  obtain k where k: "is_first_max (map (cos_sim q) m) k"
    and eq: "semantic_search q m = (if cos_sim q (m ! k) < 1 / 2 then Inr Out_of_scope
              else Inr (Best_match k (cos_sim q (m ! k))))"
    using semantic_search_eq [OF assms] by blast
  from k have "k < length m" and "\<forall>j<length m. cos_sim q (m ! j) \<le> cos_sim q (m ! k)"
    by (auto simp: is_first_max_iff)
  with eq show ?thesis by force
qed

lemmas retrieval_eval = semantic_search_def pytorch_cos_sim_def torch_argmax_def cos_sim_def
  l2_norm_def dot_def normalize_eps_def

section \<open>Claims\<close>

text \<open>
  C2: When retrieval accepts, it names the stored embedding of maximal cosine
  similarity to the query, the lowest such index on ties, with that similarity as its
  score, and the score is at least the threshold 0.5.
\<close>

theorem semantic_search_best:
  assumes "semantic_search q m = Inr (Best_match i c)"
  shows "i < length m \<and> c = cos_sim q (m ! i) \<and> (\<forall>j<length m. cos_sim q (m ! j) \<le> c) \<and>
         (\<forall>j<i. cos_sim q (m ! j) < c) \<and> 1 / 2 \<le> c"
  using semantic_search_Best_match [OF assms] by (auto simp: is_first_max_iff)

lemma semantic_search_best_witness:
  "semantic_search [1, 0] [[0, 1], [1, 0], [1, 0]] = Inr (Best_match 1 1) \<and>
   1 < length [[0, 1], [1, 0], [1, 0 :: real]] \<and> 1 = cos_sim [1, 0] ([[0, 1], [1, 0], [1, 0]] ! 1)"
proof -
  have h: "semantic_search [1, 0] [[0, 1], [1, 0], [1, 0]] = Inr (Best_match 1 1)"
    by (simp add: retrieval_eval)
  show ?thesis using h semantic_search_best [OF h] by simp
qed

text \<open>
  C10: On a non-empty store of the query's dimension, retrieval answers
  out of scope exactly when every stored embedding has cosine similarity below 0.5.
\<close>

theorem semantic_search_out_of_scope:
  assumes "m \<noteq> []" and "list_all (\<lambda>r. length r = length q) m"
  shows "semantic_search q m = Inr Out_of_scope \<longleftrightarrow> (\<forall>j<length m. cos_sim q (m ! j) < 1 / 2)"
  by (rule semantic_search_Out_of_scope_iff [OF assms])

lemma semantic_search_out_of_scope_witness:
  "[[0, 1 :: real]] \<noteq> [] \<and> list_all (\<lambda>r. length r = length [1, 0 :: real]) [[0, 1 :: real]] \<and>
   semantic_search [1, 0] [[0, 1]] = Inr Out_of_scope \<and> cos_sim [1, 0] ([[0, 1]] ! 0) < 1 / 2"
proof -
  have h1: "[[0, 1 :: real]] \<noteq> []" by simp
  have h2: "list_all (\<lambda>r. length r = length [1, 0 :: real]) [[0, 1 :: real]]" by simp
  have h3: "semantic_search [1, 0] [[0, 1]] = Inr Out_of_scope" by (simp add: retrieval_eval)
  show ?thesis using h1 h2 h3 semantic_search_out_of_scope [OF h1 h2] by simp
qed

end
