(* ===== verification/Answer_Extractor.thy ===== *)
theory Answer_Extractor
  imports Regex_Split
begin

text \<open>
  The answer extractor, \<open>extract_best_sentence(text, query)\<close>
  (\<open>src/backend/app.py\<close>, lines 155--166): split the winning chunk into sentences
  with \<open>re.split(r'(?<!\w\.\w.)(?<![A-Z][a-z]\.)(?<=\.|\?)\s', text)\<close>, rank the
  sentences by \<open>fuzz.ratio(s.lower(), query.lower())\<close> with a stable descending sort,
  and join the best two with a space. \<open>fuzz.ratio\<close> is external: a parameter
  \<open>ratio\<close> of the model.
\<close>

section \<open>The sentence boundary pattern\<close>

text \<open>
  A boundary is one whitespace character (\<open>\s\<close>) preceded by a full stop or a
  question mark (\<open>(?<=\.|\?)\<close>), unless the four characters before it read
  word-dot-word-any (\<open>(?<!\w\.\w.)\<close>, the \<open>.\<close> not matching a newline: "e.g. ")
  or the three before it read upper-lower-dot (\<open>(?<![A-Z][a-z]\.)\<close>: "Dr. ").
  The pattern has no group: the whitespace is dropped.
\<close>

definition sentence_match :: matcher where
  "sentence_match s p =
     (if p < length s \<and> is_space (s ! p) \<and> 0 < p \<and>
         (s ! (p - 1) = cp_dot \<or> s ! (p - 1) = cp_qmark) \<and>
         \<not> (4 \<le> p \<and> is_word (s ! (p - 4)) \<and> s ! (p - 3) = cp_dot \<and> is_word (s ! (p - 2)) \<and>
            s ! (p - 1) \<noteq> cp_newline) \<and>
         \<not> (3 \<le> p \<and> is_upper (s ! (p - 3)) \<and> is_lower (s ! (p - 2)) \<and> s ! (p - 1) = cp_dot)
      then Some (Suc p, []) else None)"

definition split_sentences :: "ustr \<Rightarrow> ustr list" where
  "split_sentences text = re_split sentence_match text"

section \<open>Ranking and the answer\<close>

text \<open>
  \<open>sorted(sentences, key=lambda s: fuzz.ratio(s.lower(), query.lower()),
  reverse=True)[:2]\<close>. Python's \<open>reverse=True\<close> keeps equal keys in their original
  order, which is the stable ascending sort on the negated key.
\<close>

definition best_sentences :: "(ustr \<Rightarrow> ustr \<Rightarrow> real) \<Rightarrow> ustr list \<Rightarrow> ustr \<Rightarrow> ustr list" where
  "best_sentences ratio sentences query =
     take 2 (sort_key (\<lambda>s. - ratio (py_lower s) (py_lower query)) sentences)"

definition extract_best_sentence :: "(ustr \<Rightarrow> ustr \<Rightarrow> real) \<Rightarrow> ustr \<Rightarrow> ustr \<Rightarrow> ustr" where
  "extract_best_sentence ratio text query =
     (if text = [] then ascii ''No relevant answer found.''
      else let best = best_sentences ratio (split_sentences text) query
           in if best \<noteq> [] then py_join (ascii '' '') best
              else ascii ''No clear answer found in the document.'')"

section \<open>Lemmas\<close>

subsection \<open>Stable descending sort\<close>

lemma filter_take_first_max:
  assumes "is_first_max (map k xs) i"
  shows "filter (\<lambda>y. k y = k (xs ! i)) (take i xs) = []"
  using assms by (force simp: is_first_max_iff filter_empty_conv in_set_conv_nth)

lemma sort_key_first_max:
  fixes k :: "'a \<Rightarrow> real"
  assumes fm: "is_first_max (map k xs) i"
  shows "sort_key (\<lambda>s. - k s) xs = xs ! i # sort_key (\<lambda>s. - k s) (take i xs @ drop (Suc i) xs)"
proof (rule properties_for_sort_key)
  let ?f = "\<lambda>s. - k s" and ?x = "xs ! i" and ?rest = "take i xs @ drop (Suc i) xs"
  from fm have il: "i < length xs" by (simp add: is_first_max_def)
  then have xs: "xs = take i xs @ ?x # drop (Suc i) xs" by (simp add: id_take_nth_drop)
  have le: "k y \<le> k ?x" if "y \<in> set xs" for y
    using fm that by (auto simp: is_first_max_iff in_set_conv_nth)
  have "mset xs = mset (take i xs @ ?x # drop (Suc i) xs)" by (subst xs) simp
  then show "mset (?x # sort_key ?f ?rest) = mset xs" by simp
  have "set ?rest \<subseteq> set xs" using set_take_subset set_drop_subset by fastforce
  with le show "sorted (map ?f (?x # sort_key ?f ?rest))"
    by (auto simp: sorted_sort_key)
  fix z
  let ?P = "\<lambda>y. ?f z = ?f y"
  have st: "filter ?P (sort_key ?f ?rest) = filter ?P ?rest"
    using sort_key_stable [of ?f "?f z" ?rest] by (simp add: eq_commute)
  show "filter ?P (?x # sort_key ?f ?rest) = filter ?P xs"
  proof (cases "k z = k ?x")
    case True
    then have "filter ?P (take i xs) = []"
      using filter_take_first_max [OF fm] by (simp add: eq_commute)
    with True st show ?thesis by (subst (2) xs) simp
  next
    case False
    with st show ?thesis by (subst (2) xs) simp
  qed
qed

lemma best_sentences_first_max:
  assumes "is_first_max (map (\<lambda>s. ratio (py_lower s) (py_lower query)) ss) i"
  shows "best_sentences ratio ss query =
           ss ! i # take 1 (sort_key (\<lambda>s. - ratio (py_lower s) (py_lower query)) (take i ss @ drop (Suc i) ss))"
  using sort_key_first_max [OF assms] by (simp add: best_sentences_def)

subsection \<open>The sentence pattern\<close>

lemma sentence_match_props:
  "nonempty_matcher sentence_match" "no_groups sentence_match s"
  by (auto simp: nonempty_matcher_def no_groups_def sentence_match_def valid_match_def
      split: if_splits)

lemma dropped_sentence_match:
  "dropped_match sentence_match s x \<Longrightarrow> \<exists>c. x = [c] \<and> is_space c"
  by (auto simp: dropped_match_def sentence_match_def slice_def take_Suc_conv_app_nth
      split: if_splits)

lemma split_sentences_ne [simp]: "split_sentences t \<noteq> []"
  by (simp add: split_sentences_def)

lemma split_sentences_punct_from:
  assumes "m = sentence_match" and "lst \<le> p" and "lst = 0 \<or> (0 < lst \<and> is_space (s ! (lst - 1)))"
  shows "\<forall>x\<in>set (butlast (re_split_from m s lst p)).
           x \<noteq> [] \<and> (last x = cp_dot \<or> last x = cp_qmark)"
  using assms
proof (induction m s lst p rule: re_split_from.induct)
  case (1 m s lst p)
  show ?case
  proof (cases "length s < p")
    case True
    then show ?thesis by (simp add: re_split_from.simps [of m s lst p])
  next
    case False
    show ?thesis
    proof (cases "sentence_match s p")
      case None
      with False "1.IH" "1.prems" show ?thesis
        by (simp add: re_split_from.simps [of sentence_match s lst p])
    next
      case (Some r)
      then have m: "p < length s \<and> is_space (s ! p) \<and> 0 < p \<and>
                    (s ! (p - 1) = cp_dot \<or> s ! (p - 1) = cp_qmark)" and r: "r = (Suc p, [])"
        by (auto simp: sentence_match_def split: if_splits)
      have v: "valid_match s p (Suc p)" using m by (simp add: valid_match_def)
      have "lst \<noteq> p"
        using "1.prems"(3) m by (auto simp: is_space_def)
      with "1.prems"(2) have lp: "lst < p" by simp
      have x: "slice s lst p \<noteq> [] \<and> (last (slice s lst p) = cp_dot \<or> last (slice s lst p) = cp_qmark)"
        using lp m by (auto simp: slice_def last_conv_nth min_def)
      have rest: "\<forall>x\<in>set (butlast (re_split_from m s (Suc p) (Suc p))).
           x \<noteq> [] \<and> (last x = cp_dot \<or> last x = cp_qmark)"
        using "1.IH"(2) [OF False _ r [symmetric] v] Some m "1.prems"(1) by simp
      have "re_split_from m s lst p = slice s lst p # re_split_from m s (Suc p) (Suc p)"
        using False Some r v "1.prems"(1) by (simp add: re_split_from.simps [of sentence_match s lst p])
      with x rest show ?thesis by simp
    qed
  qed
qed

lemma sort_key_Nil_iff [simp]: "sort_key f xs = [] \<longleftrightarrow> xs = []"
  by (metis length_0_conv length_sort)

lemma best_sentences_two_pass_eq:
  assumes "is_first_max (map (\<lambda>s. ratio (py_lower s) (py_lower query)) ss) i"
    and "rest = take i ss @ drop (Suc i) ss"
    and "rest \<noteq> [] \<Longrightarrow> is_first_max (map (\<lambda>s. ratio (py_lower s) (py_lower query)) rest) j"
  shows "best_sentences ratio ss query = ss ! i # (if rest = [] then [] else [rest ! j])"
proof (cases "rest = []")
  case True
  with assms(2) have "take i ss = []" and "drop (Suc i) ss = []" by simp_all
  with True assms(1,2) show ?thesis by (simp add: best_sentences_first_max)
next
  case False
  with assms(3) have "sort_key (\<lambda>s. - ratio (py_lower s) (py_lower query)) rest =
      rest ! j # sort_key (\<lambda>s. - ratio (py_lower s) (py_lower query)) (take j rest @ drop (Suc j) rest)"
    by (intro sort_key_first_max) simp
  with assms(1,2) False show ?thesis by (simp add: best_sentences_first_max)
qed

lemmas sentence_eval = split_sentences_def re_split_def re_split_from.simps sentence_match_def
  slice_def valid_match_def str_defs

section \<open>Claims\<close>

text \<open>
  C6: \<open>sorted(..., reverse=True)[:2]\<close> is a two-pass selection: the first
  sentence of maximal score, then the first sentence of maximal score among the others
  (if any). Ties therefore go to the earlier sentence.
\<close>

theorem best_sentences_two_pass:
  assumes "is_first_max (map (\<lambda>s. ratio (py_lower s) (py_lower query)) ss) i"
    and "rest = take i ss @ drop (Suc i) ss"
    and "rest \<noteq> [] \<Longrightarrow> is_first_max (map (\<lambda>s. ratio (py_lower s) (py_lower query)) rest) j"
  shows "best_sentences ratio ss query = ss ! i # (if rest = [] then [] else [rest ! j])"
  using assms by (rule best_sentences_two_pass_eq [where ratio = ratio and query = query])

lemma best_sentences_two_pass_witness:
  "is_first_max (map (\<lambda>s. (\<lambda>a b. real (length a)) (py_lower s) (py_lower (ascii ''q''))) [ascii ''ab.'', ascii ''abcd.'', ascii ''x'']) 1 \<and>
   is_first_max (map (\<lambda>s. (\<lambda>a b. real (length a)) (py_lower s) (py_lower (ascii ''q''))) [ascii ''ab.'', ascii ''x'']) 0 \<and>
   best_sentences (\<lambda>a b. real (length a)) [ascii ''ab.'', ascii ''abcd.'', ascii ''x''] (ascii ''q'') =
     [ascii ''abcd.'', ascii ''ab.'']"
proof -
  have h1: "is_first_max (map (\<lambda>s. (\<lambda>a b. real (length a)) (py_lower s) (py_lower (ascii ''q''))) [ascii ''ab.'', ascii ''abcd.'', ascii ''x'']) 1"
    by (simp add: is_first_max_def str_defs)
  have h2: "[ascii ''ab.'', ascii ''x''] = take 1 [ascii ''ab.'', ascii ''abcd.'', ascii ''x''] @ drop (Suc 1) [ascii ''ab.'', ascii ''abcd.'', ascii ''x'']"
    by simp
  have h3: "is_first_max (map (\<lambda>s. (\<lambda>a b. real (length a)) (py_lower s) (py_lower (ascii ''q''))) [ascii ''ab.'', ascii ''x'']) 0"
    by (simp add: is_first_max_def str_defs)
  show ?thesis using h1 h3 best_sentences_two_pass [OF h1 h2 h3] by simp
qed

text \<open>
  C27: For a non-empty chunk the answer is always the best sentences joined by
  a space, and there is at least one: \<open>re.split\<close> never returns an empty list, so
  the "No clear answer found in the document." branch cannot be taken.
\<close>

theorem extract_best_sentence_joins_best:
  "text \<noteq> [] \<Longrightarrow>
     best_sentences ratio (split_sentences text) query \<noteq> [] \<and>
     extract_best_sentence ratio text query = py_join (ascii '' '') (best_sentences ratio (split_sentences text) query)"
  by (simp add: extract_best_sentence_def best_sentences_def Let_def)

lemma extract_best_sentence_joins_best_witness:
  "ascii ''A. B.'' \<noteq> [] \<and>
   best_sentences (\<lambda>a b. 0) (split_sentences (ascii ''A. B.'')) (ascii ''q'') \<noteq> [] \<and>
   extract_best_sentence (\<lambda>a b. 0) (ascii ''A. B.'') (ascii ''q'') =
     py_join (ascii '' '') (best_sentences (\<lambda>a b. 0) (split_sentences (ascii ''A. B.'')) (ascii ''q''))"
proof -
  have h: "ascii ''A. B.'' \<noteq> []" by (simp add: ascii_def)
  show ?thesis using h extract_best_sentence_joins_best [OF h] by blast
qed

text \<open>
  C26: The answer for a non-empty chunk begins with the sentence of highest
  similarity to the query, the earliest one on ties; in particular
  \<open>extract(text, text)\<close> begins with a sentence of maximal score against the text.
\<close>

theorem extract_best_sentence_starts_with_best:
  assumes "text \<noteq> []"
  shows "\<exists>i. is_first_max (map (\<lambda>s. ratio (py_lower s) (py_lower query)) (split_sentences text)) i \<and>
             prefix (split_sentences text ! i) (extract_best_sentence ratio text query)"
proof -
  obtain i where i: "is_first_max (map (\<lambda>s. ratio (py_lower s) (py_lower query)) (split_sentences text)) i"
    using is_first_max_exists [of "map (\<lambda>s. ratio (py_lower s) (py_lower query)) (split_sentences text)"]
    by auto
  then obtain rest where b: "best_sentences ratio (split_sentences text) query = split_sentences text ! i # rest"
    and "length rest \<le> 1"
    by (simp add: best_sentences_first_max)
  then have "prefix (split_sentences text ! i) (py_join (ascii '' '') (split_sentences text ! i # rest))"
    by (cases rest) (auto simp: prefix_def)
  with assms b i show ?thesis
    by (auto simp: extract_best_sentence_def Let_def)
qed

lemma extract_best_sentence_starts_with_best_witness:
  "ascii ''Revenue grew. Profit fell.'' \<noteq> [] \<and>
   (\<exists>i. is_first_max (map (\<lambda>s. (\<lambda>a b. if a = b then (100::real) else 0) (py_lower s) (py_lower (ascii ''profit fell.'')))
                             (split_sentences (ascii ''Revenue grew. Profit fell.''))) i \<and>
        prefix (split_sentences (ascii ''Revenue grew. Profit fell.'') ! i)
          (extract_best_sentence (\<lambda>a b. if a = b then (100::real) else 0) (ascii ''Revenue grew. Profit fell.'') (ascii ''profit fell.'')))"
proof -
  have h: "ascii ''Revenue grew. Profit fell.'' \<noteq> []" by (simp add: ascii_def)
  show ?thesis
    using h extract_best_sentence_starts_with_best [OF h, where ratio = "\<lambda>a b. if a = b then (100::real) else 0"
        and query = "ascii ''profit fell.''"]
    by (simp only: simp_thms)
qed

text \<open>
  C24: Sentence splitting loses nothing but the separators: the chunk is the
  sentences woven with the single whitespace characters the split dropped.
\<close>

theorem split_sentences_roundtrip:
  "\<exists>seps. length seps + 1 = length (split_sentences t) \<and>
          (\<forall>x\<in>set seps. \<exists>c. x = [c] \<and> is_space c) \<and>
          weave (split_sentences t) seps = t"
  using weave_re_split [OF sentence_match_props(2), of t] dropped_sentence_match
  by (fastforce simp: split_sentences_def)

lemma split_sentences_roundtrip_witness:
  "split_sentences (ascii ''Is it? Yes.'') = [ascii ''Is it?'', ascii ''Yes.''] \<and>
   (\<exists>seps. length seps + 1 = length (split_sentences (ascii ''Is it? Yes.'')) \<and>
          (\<forall>x\<in>set seps. \<exists>c. x = [c] \<and> is_space c) \<and>
          weave (split_sentences (ascii ''Is it? Yes.'')) seps = ascii ''Is it? Yes.'')"
proof -
  have h: "split_sentences (ascii ''Is it? Yes.'') = [ascii ''Is it?'', ascii ''Yes.'']"
    by (simp add: sentence_eval)
  show ?thesis using h split_sentences_roundtrip [of "ascii ''Is it? Yes.''"] by blast
qed

text \<open>
  C25: Every sentence but the last is non-empty and ends with a full stop or
  a question mark: the split only cuts after terminal punctuation.
\<close>

theorem split_sentences_terminal:
  "x \<in> set (butlast (split_sentences t)) \<Longrightarrow> x \<noteq> [] \<and> (last x = cp_dot \<or> last x = cp_qmark)"
  using split_sentences_punct_from [of sentence_match 0 0 t] by (auto simp: split_sentences_def re_split_def)

lemma split_sentences_terminal_witness:
  "ascii ''Is it?'' \<in> set (butlast (split_sentences (ascii ''Is it? Yes.''))) \<and>
   ascii ''Is it?'' \<noteq> [] \<and> (last (ascii ''Is it?'') = cp_dot \<or> last (ascii ''Is it?'') = cp_qmark)"
proof -
  have h: "ascii ''Is it?'' \<in> set (butlast (split_sentences (ascii ''Is it? Yes.'')))"
    by (simp add: sentence_eval)
  show ?thesis using h split_sentences_terminal [OF h] by blast
qed

subsection \<open>An example of the abbreviation guard\<close>

text \<open>
  The guard of the sentence pattern covers initials ("e.g.") and two-letter titles
  ("Dr."): a three-letter title such as "Mrs." still ends a sentence.
\<close>

lemma split_sentences_abbreviations:
  "split_sentences (ascii ''Dr. Smith met Mrs. Jones. They left.'') =
     [ascii ''Dr. Smith met Mrs.'', ascii ''Jones.'', ascii ''They left.'']"
  by (simp add: sentence_eval)

end
