(* ===== verification/Orchestrator_Spec.thy ===== *)
theory Orchestrator_Spec
  imports Retrieval Answer_Extractor
begin

text \<open>
  The specification's contracts, stated without the code they constrain: the
  retrieval engine (section 4.3: plain cosine similarity, the first index of the
  maximum, "no match" below 0.5 and on an empty corpus), the answer extractor
  (section 4.4: the two best-scored sentences, ties to the earlier one, joined by one
  space; the sentence boundaries are left to the implementation and taken from the
  code's splitter) and the query orchestrator (section 4.5) as a step relation on
  the states \<open>Start\<close>, \<open>PatternAttempted\<close>, \<open>SemanticAttempted\<close> and the final
  outcomes. The external capabilities (responder, embedder, string similarity) and the
  corpus snapshot are parameters. \<open>Query\<close> proves that the handler implements it.
\<close>

section \<open>Retrieval engine\<close>

definition spec_cos :: "embedding \<Rightarrow> embedding \<Rightarrow> real" where
  "spec_cos a b = dot a b / (l2_norm a * l2_norm b)"

definition first_index :: "real list \<Rightarrow> real \<Rightarrow> nat" where
  "first_index xs v = length (takeWhile (\<lambda>x. x \<noteq> v) xs)"

definition spec_retrieve :: "embedding \<Rightarrow> embedding list \<Rightarrow> (nat \<times> real) option" where
  "spec_retrieve q es =
     (if es = [] then None
      else let sims = map (spec_cos q) es; best = Max (set sims)
           in if best < 1 / 2 then None else Some (first_index sims best, best))"

section \<open>Answer extractor\<close>

text \<open>
  \<open>score\<close> is the similarity of a sentence with the query. The best sentence is the
  first of maximal score; the second is the first of maximal score among the others.
\<close>

inductive spec_extract :: "(ustr \<Rightarrow> real) \<Rightarrow> ustr \<Rightarrow> ustr \<Rightarrow> bool" for score where
  select: "text \<noteq> [] \<Longrightarrow> ss = split_sentences text \<Longrightarrow> is_first_max (map score ss) i \<Longrightarrow>
     rest = take i ss @ drop (Suc i) ss \<Longrightarrow> (rest \<noteq> [] \<longrightarrow> is_first_max (map score rest) j) \<Longrightarrow>
     spec_extract score text (if rest = [] then ss ! i else ss ! i @ ascii '' '' @ rest ! j)"

section \<open>Query orchestrator\<close>

datatype outcome =
    Prompt_for_input
  | Pattern_answer ustr
  | Semantic_answer ustr real
  | Out_of_scope_answer

datatype ostate = O_Start ustr | O_Pattern ustr | O_Semantic ustr | O_Done outcome

text \<open>
  One request: \<open>respond\<close> is the pattern responder, \<open>embed\<close> the embedder,
  \<open>similarity\<close> the string similarity, \<open>corpus\<close> the snapshot of the store. The query
  the responder, the embedder and the extractor see is the trimmed request.
\<close>

inductive ostep ::
  "(ustr \<Rightarrow> ustr \<times> real) \<Rightarrow> (ustr \<Rightarrow> embedding) \<Rightarrow> (ustr \<Rightarrow> ustr \<Rightarrow> real) \<Rightarrow>
   (ustr \<times> embedding) list \<Rightarrow> ostate \<Rightarrow> ostate \<Rightarrow> bool"
  for respond embed similarity corpus where
  reject: "py_strip raw = [] \<Longrightarrow>
     ostep respond embed similarity corpus (O_Start raw) (O_Done Prompt_for_input)"
| attempt: "py_strip raw \<noteq> [] \<Longrightarrow>
     ostep respond embed similarity corpus (O_Start raw) (O_Pattern (py_strip raw))"
| accept: "respond q = (t, c) \<Longrightarrow> 1 / 2 < c \<Longrightarrow>
     ostep respond embed similarity corpus (O_Pattern q) (O_Done (Pattern_answer t))"
| decline: "respond q = (t, c) \<Longrightarrow> \<not> 1 / 2 < c \<Longrightarrow>
     ostep respond embed similarity corpus (O_Pattern q) (O_Semantic q)"
| no_match: "spec_retrieve (embed q) (map snd corpus) = None \<Longrightarrow>
     ostep respond embed similarity corpus (O_Semantic q) (O_Done Out_of_scope_answer)"
| matched: "spec_retrieve (embed q) (map snd corpus) = Some (i, s) \<Longrightarrow>
     spec_extract (\<lambda>x. similarity x q) (fst (corpus ! i)) a \<Longrightarrow>
     ostep respond embed similarity corpus (O_Semantic q) (O_Done (Semantic_answer a s))"

text \<open>"Rounded to two decimals": a multiple of 0.01 within 0.005 of the score.\<close>

definition rounded_2dp :: "real \<Rightarrow> real \<Rightarrow> bool" where
  "rounded_2dp x c \<longleftrightarrow> c * 100 = of_int \<lfloor>c * 100\<rfloor> \<and> \<bar>c - x\<bar> \<le> 1 / 200"

section \<open>Lemmas\<close>

lemma first_max_Max:
  assumes "is_first_max xs i"
  shows "Max (set xs) = xs ! i \<and> first_index xs (xs ! i) = i"
proof
  from assms have i: "i < length xs" and le: "\<forall>j<length xs. xs ! j \<le> xs ! i"
    and lt: "\<forall>j<i. xs ! j < xs ! i"
    by (simp_all add: is_first_max_iff)
  show "Max (set xs) = xs ! i"
    using i le by (intro Max_eqI) (auto simp: in_set_conv_nth)
  have xs: "xs = take i xs @ xs ! i # drop (Suc i) xs" using i by (simp add: id_take_nth_drop)
  have "\<forall>x\<in>set (take i xs). x \<noteq> xs ! i"
  proof
    fix x
    assume "x \<in> set (take i xs)"
    then obtain k where "k < i" and "x = xs ! k" using i by (auto simp: in_set_conv_nth)
    with lt show "x \<noteq> xs ! i" by fastforce
  qed
  then have "takeWhile (\<lambda>x. x \<noteq> xs ! i) xs = take i xs"
    by (subst xs, subst takeWhile_append2) simp_all
  then show "first_index xs (xs ! i) = i" using i by (simp add: first_index_def)
qed

lemma cos_sim_spec_cos:
  "normalize_eps \<le> l2_norm a \<Longrightarrow> normalize_eps \<le> l2_norm b \<Longrightarrow> cos_sim a b = spec_cos a b"
  by (simp add: cos_sim_def spec_cos_def max_def)

lemma spec_retrieve_Best_match:
  assumes "semantic_search q m = Inr (Best_match i c)"
    and "normalize_eps \<le> l2_norm q" and "\<forall>e\<in>set m. normalize_eps \<le> l2_norm e"
  shows "spec_retrieve q m = Some (i, c)"
proof -
  from semantic_search_Best_match [OF assms(1)]
  have fm: "is_first_max (map (cos_sim q) m) i" and i: "i < length m"
    and c: "c = cos_sim q (m ! i)" and ge: "1 / 2 \<le> c" by simp_all
  have eq: "map (cos_sim q) m = map (spec_cos q) m"
    using assms(2,3) by (simp add: cos_sim_spec_cos)
  have "cos_sim q (m ! i) = spec_cos q (m ! i)"
    using assms(2,3) i by (simp add: cos_sim_spec_cos)
  with first_max_Max [OF fm] i c have "Max (set (map (spec_cos q) m)) = c"
    and "first_index (map (spec_cos q) m) c = i" by (simp_all add: eq)
  with ge i show ?thesis by (auto simp: spec_retrieve_def Let_def)
qed

lemma spec_retrieve_Out_of_scope:
  assumes "semantic_search q m = Inr Out_of_scope"
    and "normalize_eps \<le> l2_norm q" and "\<forall>e\<in>set m. normalize_eps \<le> l2_norm e"
  shows "spec_retrieve q m = None"
proof -
  from assms(1) have "\<not> (\<exists>err. semantic_search q m = Inl err)" by simp
  then have ne: "m \<noteq> []" and dim: "list_all (\<lambda>r. length r = length q) m"
    by (simp_all add: semantic_search_error_iff)
  from semantic_search_Out_of_scope_iff [OF ne dim] assms(1)
  have lt: "\<forall>x\<in>set (map (cos_sim q) m). x < 1 / 2" by (auto simp: in_set_conv_nth)
  have eq: "map (cos_sim q) m = map (spec_cos q) m"
    using assms(2,3) by (simp add: cos_sim_spec_cos)
  have "Max (set (map (spec_cos q) m)) \<in> set (map (spec_cos q) m)"
    using ne by (intro Max_in) simp_all
  with lt eq have "Max (set (map (spec_cos q) m)) < 1 / 2" by fastforce
  with ne show ?thesis by (simp add: spec_retrieve_def Let_def)
qed

lemma py_join_space_two:
  "py_join (ascii '' '') (x # (if rest = [] then [] else [y])) =
     (if rest = [] then x else x @ ascii '' '' @ y)"
  by simp

lemma extract_best_sentence_spec:
  assumes "text \<noteq> []"
  shows "spec_extract (\<lambda>s. ratio (py_lower s) (py_lower query)) text (extract_best_sentence ratio text query)"
proof -
  let ?sc = "\<lambda>s. ratio (py_lower s) (py_lower query)"
  let ?ss = "split_sentences text"
  obtain i where i: "is_first_max (map ?sc ?ss) i"
    using is_first_max_exists [of "map ?sc ?ss"] by auto
  define rest where "rest = take i ?ss @ drop (Suc i) ?ss"
  obtain j where j: "rest \<noteq> [] \<longrightarrow> is_first_max (map ?sc rest) j"
    using is_first_max_exists [of "map ?sc rest"] by auto
  have b: "best_sentences ratio ?ss query = ?ss ! i # (if rest = [] then [] else [rest ! j])"
    by (rule best_sentences_two_pass_eq [where ratio = ratio and query = query, OF i rest_def])
      (use j in blast)
  have "extract_best_sentence ratio text query = (if rest = [] then ?ss ! i else ?ss ! i @ ascii '' '' @ rest ! j)"
    using assms by (simp add: extract_best_sentence_def b del: py_join.simps) (simp add: py_join_space_two)
  moreover have "spec_extract ?sc text (if rest = [] then ?ss ! i else ?ss ! i @ ascii '' '' @ rest ! j)"
    by (rule spec_extract.select [OF assms refl i rest_def j])
  ultimately show ?thesis by simp
qed

end
