(* ===== verification/Query.thy ===== *)
theory Query
  imports Orchestrator_Spec
begin

text \<open>
  The \<open>/query\<close> handler, \<open>query()\<close> (\<open>src/backend/app.py\<close>, lines 103--149). The
  global handles of the module (the ChatterBot instance, the sentence-transformer model,
  \<open>fuzz.ratio\<close>, pdfminer and ChatterBot's trainer) are explicit services. ChatterBot
  keeps a state of its own (its statement database) which \<open>get_response\<close> updates:
  the handler threads it through. The handler's control flow is also written as a
  step relation \<open>qstep\<close>, one rule per branch, whose runs give the order of the calls;
  the abstraction \<open>realises\<close> relates its responses to the outcomes of the
  specification's orchestrator (\<open>Orchestrator_Spec\<close>), which it is proved to implement.
\<close>

section \<open>Services and responses\<close>

record 'b services =
  chatbot_get_response :: "'b \<Rightarrow> ustr \<Rightarrow> (ustr \<times> real) \<times> 'b"
  model_encode :: "ustr \<Rightarrow> embedding"
  fuzz_ratio :: "ustr \<Rightarrow> ustr \<Rightarrow> real"
  pdf_extract_text :: "ustr \<Rightarrow> py_error + ustr"
  trainer_train :: "'b \<Rightarrow> ustr list \<Rightarrow> 'b"

text \<open>The JSON object \<open>jsonify\<close> returns; absent keys are \<open>None\<close>.\<close>

record json_response =
  resp_status :: "ustr option"
  resp_response :: ustr
  resp_source :: "ustr option"
  resp_confidence :: "real option"

definition prompt_response :: json_response where
  "prompt_response = \<lparr>resp_status = None, resp_response = ascii ''Please enter a valid query.'',
                      resp_source = None, resp_confidence = None\<rparr>"

definition chatterbot_response :: "ustr \<Rightarrow> json_response" where
  "chatterbot_response t = \<lparr>resp_status = Some (ascii ''success''), resp_response = t,
                            resp_source = Some (ascii ''ChatterBot''), resp_confidence = None\<rparr>"

definition out_of_scope_response :: json_response where
  "out_of_scope_response =
     \<lparr>resp_status = Some (ascii ''error''),
      resp_response = ascii ''This question is out of scope. No relevant information found in the provided document.'',
      resp_source = Some (ascii ''None''), resp_confidence = None\<rparr>"

definition pdf_response :: "ustr \<Rightarrow> real \<Rightarrow> json_response" where
  "pdf_response t c = \<lparr>resp_status = Some (ascii ''success''), resp_response = t,
                       resp_source = Some (ascii ''Extracted from PDF''), resp_confidence = Some c\<rparr>"

text \<open>
  \<open>round(x, 2)\<close> on a Python float rounds the exact value half to even; on reals that
  is round-half-even of \<open>100 x\<close>, divided by 100.
\<close>

definition round_half_even :: "real \<Rightarrow> int" where
  "round_half_even y =
     (let f = \<lfloor>y\<rfloor>; d = y - of_int f
      in if d < 1 / 2 then f else if 1 / 2 < d then f + 1 else if even f then f else f + 1)"

definition round2 :: "real \<Rightarrow> real" where
  "round2 x = of_int (round_half_even (x * 100)) / 100"

section \<open>The handler\<close>

text \<open>
  Lines 121--149, after ChatterBot declined: load the store, embed the query, search,
  and extract the answer from the winning chunk.
\<close>

definition semantic_fallback :: "'b services \<Rightarrow> database \<Rightarrow> ustr \<Rightarrow> py_error + json_response" where
  "semantic_fallback svc db user_query =
     (case load_data_from_db db of
        Inl err \<Rightarrow> Inl err
      | Inr (chunks, embeddings) \<Rightarrow>
          (let query_embedding = model_encode svc user_query
           in case semantic_search query_embedding embeddings of
                Inl err \<Rightarrow> Inl err
              | Inr Out_of_scope \<Rightarrow> Inr out_of_scope_response
              | Inr (Best_match best_match_index confidence_score) \<Rightarrow>
                  (let best_response =
                         (if chunks \<noteq> [] then chunks ! best_match_index
                          else ascii ''No relevant answer found in the PDF.'');
                       extracted_answer =
                         (if best_response \<noteq> [] then extract_best_sentence (fuzz_ratio svc) best_response user_query
                          else ascii ''No relevant answer found.'')
                   in Inr (pdf_response (py_strip extracted_answer) (round2 confidence_score)))))"

text \<open>
  \<open>data.get("query", "")\<close>: \<open>None\<close> when the key is absent. A request body that is
  not JSON, or a query that is not a string, raises in Flask before the model starts
  and is not modelled. The result is the response or the exception that escapes the
  handler (an HTTP 500), together with the chatbot's new state.
\<close>

definition query :: "'b services \<Rightarrow> database \<Rightarrow> 'b \<Rightarrow> ustr option \<Rightarrow> (py_error + json_response) \<times> 'b" where
  "query svc db chatbot data =
     (let user_query = py_strip (case data of None \<Rightarrow> [] | Some q \<Rightarrow> q)
      in if user_query = [] then (Inr prompt_response, chatbot)
         else (case chatbot_get_response svc chatbot user_query of
                 ((response, confidence), chatbot') \<Rightarrow>
                   if 1 / 2 < confidence then (Inr (chatterbot_response (py_strip response)), chatbot')
                   else (semantic_fallback svc db user_query, chatbot')))"

section \<open>The handler's control flow as a state machine\<close>

text \<open>
  The states of one request: the raw request, the responder being tried on the
  stripped query, the semantic search being tried after the responder declined, and
  the response. Each rule is one branch of \<open>query\<close>; \<open>query_reaches\<close> shows that
  \<open>query\<close> follows a run of it.
\<close>

datatype 'b qstate =
    Start "ustr option" 'b
  | Pattern_attempted ustr 'b
  | Semantic_attempted ustr 'b
  | Responded "py_error + json_response" 'b

definition request_text :: "ustr option \<Rightarrow> ustr" where
  "request_text data = py_strip (case data of None \<Rightarrow> [] | Some q \<Rightarrow> q)"

inductive qstep :: "'b services \<Rightarrow> database \<Rightarrow> 'b qstate \<Rightarrow> 'b qstate \<Rightarrow> bool"
  for svc :: "'b services" and db :: database where
  reject_empty: "request_text data = [] \<Longrightarrow>
     qstep svc db (Start data b) (Responded (Inr prompt_response) b)"
| attempt_pattern: "request_text data \<noteq> [] \<Longrightarrow>
     qstep svc db (Start data b) (Pattern_attempted (request_text data) b)"
| accept_pattern: "chatbot_get_response svc b q = ((t, c), b') \<Longrightarrow> 1 / 2 < c \<Longrightarrow>
     qstep svc db (Pattern_attempted q b) (Responded (Inr (chatterbot_response (py_strip t))) b')"
| attempt_semantic: "chatbot_get_response svc b q = ((t, c), b') \<Longrightarrow> \<not> 1 / 2 < c \<Longrightarrow>
     qstep svc db (Pattern_attempted q b) (Semantic_attempted q b')"
| answer_semantic: "qstep svc db (Semantic_attempted q b) (Responded (semantic_fallback svc db q) b)"

inductive_cases qstep_StartE: "qstep svc db (Start data b) s"
inductive_cases qstep_PatternE: "qstep svc db (Pattern_attempted q b) s"
inductive_cases qstep_SemanticE: "qstep svc db (Semantic_attempted q b) s"
inductive_cases qstep_RespondedE: "qstep svc db (Responded r b) s"

text \<open>What a run from a request has established at each state.\<close>

definition run_inv :: "'b services \<Rightarrow> ustr option \<Rightarrow> 'b \<Rightarrow> 'b qstate \<Rightarrow> bool" where
  "run_inv svc data b s =
     (case s of
        Start d b0 \<Rightarrow> d = data \<and> b0 = b
      | Pattern_attempted q b0 \<Rightarrow> q = request_text data \<and> q \<noteq> [] \<and> b0 = b
      | Semantic_attempted q b0 \<Rightarrow> q = request_text data \<and> q \<noteq> [] \<and>
          (\<exists>t c. chatbot_get_response svc b q = ((t, c), b0) \<and> \<not> 1 / 2 < c)
      | Responded r b0 \<Rightarrow> True)"

text \<open>
  A fixed set of services for concrete runs: a responder that never matches, an
  encoder onto the first axis, a constant similarity and a one-sentence document.
\<close>

abbreviation example_services :: "unit services" where
  "example_services \<equiv>
     \<lparr>chatbot_get_response = (\<lambda>b q. ((ascii ''I do not know.'', 0), b)),
      model_encode = (\<lambda>q. [1, 0]), fuzz_ratio = (\<lambda>a b. 0),
      pdf_extract_text = (\<lambda>p. Inr (ascii ''Revenue grew 10%.'')), trainer_train = (\<lambda>b c. b)\<rparr>"

abbreviation example_table :: table where
  "example_table \<equiv> \<lparr>rows = [\<lparr>row_id = 1, row_chunk = ascii ''Revenue grew.'', row_embedding = [1, 0]\<rparr>], seq = 1\<rparr>"

text \<open>
  The abstraction from the handler to the specification: the JSON object that
  realises each outcome of the orchestrator, and the orchestrator instantiated with
  the handler's services, the responder's state at the request, and the store.
\<close>

fun realises :: "outcome \<Rightarrow> json_response \<Rightarrow> bool" where
  "realises Prompt_for_input r = (r = prompt_response)"
| "realises (Pattern_answer t) r = (r = chatterbot_response (py_strip t))"
| "realises (Semantic_answer a s) r =
     (resp_status r = Some (ascii ''success'') \<and> resp_source r = Some (ascii ''Extracted from PDF'') \<and>
      resp_response r = py_strip a \<and>
      (case resp_confidence r of None \<Rightarrow> False | Some c \<Rightarrow> rounded_2dp s c))"
| "realises Out_of_scope_answer r = (r = out_of_scope_response)"

abbreviation spec_of ::
  "'b services \<Rightarrow> 'b \<Rightarrow> table \<Rightarrow> ostate \<Rightarrow> ostate \<Rightarrow> bool" where
  "spec_of svc b t \<equiv>
     ostep (\<lambda>q. fst (chatbot_get_response svc b q)) (model_encode svc)
       (\<lambda>s q. fuzz_ratio svc (py_lower s) (py_lower q)) (map (\<lambda>r. (row_chunk r, row_embedding r)) (rows t))"

section \<open>Lemmas\<close>

subsection \<open>The state machine\<close>

lemma query_request_text:
  "query svc db chatbot data =
     (if request_text data = [] then (Inr prompt_response, chatbot)
      else (case chatbot_get_response svc chatbot (request_text data) of
              ((response, confidence), chatbot') \<Rightarrow>
                if 1 / 2 < confidence then (Inr (chatterbot_response (py_strip response)), chatbot')
                else (semantic_fallback svc db (request_text data), chatbot')))"
  unfolding query_def request_text_def Let_def ..

lemma query_reaches:
  "(qstep svc db)\<^sup>*\<^sup>* (Start data b) (Responded (fst (query svc db b data)) (snd (query svc db b data)))"
proof (cases "request_text data = []")
  case True
  then have "qstep svc db (Start data b) (Responded (Inr prompt_response) b)"
    by (rule qstep.reject_empty)
  with True show ?thesis by (simp add: query_request_text)
next
  case False
  obtain t c b' where g: "chatbot_get_response svc b (request_text data) = ((t, c), b')"
    by (metis prod.exhaust)
  have s1: "qstep svc db (Start data b) (Pattern_attempted (request_text data) b)"
    using False by (rule qstep.attempt_pattern)
  show ?thesis
  proof (cases "1 / 2 < c")
    case True
    have "qstep svc db (Pattern_attempted (request_text data) b)
            (Responded (Inr (chatterbot_response (py_strip t))) b')"
      using g True by (rule qstep.accept_pattern)
    with s1 False g True show ?thesis
      by (simp add: query_request_text)
  next
    case c: False
    have s2: "qstep svc db (Pattern_attempted (request_text data) b) (Semantic_attempted (request_text data) b')"
      using g c by (rule qstep.attempt_semantic)
    have s3: "qstep svc db (Semantic_attempted (request_text data) b')
                (Responded (semantic_fallback svc db (request_text data)) b')"
      by (rule qstep.answer_semantic)
    from s1 s2 s3 False g c show ?thesis
      by (simp add: query_request_text)
  qed
qed

lemma qstep_run_inv: "qstep svc db s u \<Longrightarrow> run_inv svc data b s \<Longrightarrow> run_inv svc data b u"
  by (induction rule: qstep.induct) (auto simp: run_inv_def)

lemma qsteps_run_inv: "(qstep svc db)\<^sup>*\<^sup>* (Start data b) s \<Longrightarrow> run_inv svc data b s"
proof (induction rule: rtranclp_induct)
  case base
  then show ?case by (simp add: run_inv_def)
next
  case (step u w)
  then show ?case by (blast intro: qstep_run_inv)
qed

subsection \<open>Rounding\<close>

lemma round_half_even_close: "\<bar>of_int (round_half_even y) - y\<bar> \<le> 1 / 2"
proof -
  have f: "of_int \<lfloor>y\<rfloor> \<le> y" "y < of_int \<lfloor>y\<rfloor> + 1" by linarith+
  then show ?thesis
    by (auto simp: round_half_even_def Let_def)
qed

lemma round2_range:
  assumes "1 / 2 \<le> x" and "x \<le> 1"
  shows "1 / 2 \<le> round2 x \<and> round2 x \<le> 1"
proof -
  let ?k = "round_half_even (x * 100)"
  have "\<bar>of_int ?k - x * 100\<bar> \<le> 1 / 2" by (rule round_half_even_close)
  with assms have "49 < ?k" and "?k < 101" by linarith+
  then have "50 \<le> ?k" and "?k \<le> 100" by simp_all
  then have "(50::real) \<le> of_int ?k" and "of_int ?k \<le> (100::real)" by simp_all
  then show ?thesis by (simp add: round2_def)
qed

subsection \<open>The fallback\<close>

lemma semantic_fallback_corpus:
  assumes "corpus_inv d t"
  shows "semantic_fallback svc (Some t) q =
           (case semantic_search (model_encode svc q) (map row_embedding (rows t)) of
              Inl err \<Rightarrow> Inl err
            | Inr Out_of_scope \<Rightarrow> Inr out_of_scope_response
            | Inr (Best_match i c) \<Rightarrow>
                Inr (pdf_response (py_strip (extract_best_sentence (fuzz_ratio svc) (row_chunk (rows t ! i)) q))
                       (round2 c)))"
proof -
  have ne: "\<forall>r\<in>set (rows t). row_chunk r \<noteq> []"
    using assms by (simp add: corpus_inv_def list_all_iff)
  have idx: "i < length (rows t)" if "semantic_search (model_encode svc q) (map row_embedding (rows t)) = Inr (Best_match i c)" for i c
    using semantic_search_eq [of "map row_embedding (rows t)" "model_encode svc q"] that
      semantic_search_error_iff [of "model_encode svc q" "map row_embedding (rows t)"]
    by (auto simp: is_first_max_def split: if_splits)
  show ?thesis
    using load_corpus_inv [OF assms] ne idx
    by (auto simp: semantic_fallback_def Let_def split: sum.splits search_result.splits)
qed

lemma semantic_fallback_confidence:
  assumes "semantic_fallback svc db q = Inr resp" and "resp_confidence resp = Some c"
  shows "1 / 2 \<le> c \<and> c \<le> 1"
proof -
  from assms obtain cs es i c0 where
    s: "semantic_search (model_encode svc q) es = Inr (Best_match i c0)" and c: "c = round2 c0"
    by (auto simp: semantic_fallback_def Let_def out_of_scope_response_def pdf_response_def
        split: sum.splits search_result.splits)
  from semantic_search_Best_match [OF s] have "1 / 2 \<le> c0 \<and> c0 \<le> 1" by simp
  with c show ?thesis using round2_range by blast
qed

subsection \<open>Paths through the handler\<close>

lemma query_declined:
  assumes "request_text data \<noteq> []"
    and "chatbot_get_response svc b (request_text data) = ((r, c), b')" and "\<not> 1 / 2 < c"
  shows "query svc db b data = (semantic_fallback svc db (request_text data), b')"
  using assms by (simp add: query_request_text)

lemma query_confidence_cases:
  assumes "fst (query svc db b data) = Inr resp" and "resp_confidence resp = Some c"
  shows "\<exists>q. semantic_fallback svc db q = Inr resp"
  using assms
  by (auto simp: query_request_text prompt_response_def chatterbot_response_def split: if_splits prod.splits)

lemma example_corpus_inv: "corpus_inv 2 example_table"
  by (simp add: corpus_inv_def table_inv_def str_defs)

lemma example_request: "request_text (Some (ascii ''hi'')) = ascii ''hi''"
  by (simp add: request_text_def str_defs)

lemma example_search: "semantic_search [1, 0] [[1, 0]] = Inr (Best_match 0 1)"
  by (simp add: retrieval_eval)

lemma round2_rounded: "rounded_2dp x (round2 x)"
proof -
  let ?k = "round_half_even (x * 100)"
  have "\<bar>of_int ?k - x * 100\<bar> \<le> 1 / 2" by (rule round_half_even_close)
  then have "\<bar>of_int ?k / 100 - x\<bar> \<le> 1 / 200" by (simp add: abs_le_iff field_simps)
  moreover have "of_int ?k / 100 * 100 = (of_int ?k :: real)" by simp
  ultimately show ?thesis by (simp add: rounded_2dp_def round2_def)
qed

lemma semantic_fallback_spec:
  assumes "corpus_inv d t"
    and "normalize_eps \<le> l2_norm (model_encode svc q)"
    and "\<forall>r\<in>set (rows t). normalize_eps \<le> l2_norm (row_embedding r)"
    and "semantic_fallback svc (Some t) q = Inr resp"
  shows "\<exists>out. spec_of svc b t (O_Semantic q) (O_Done out) \<and> realises out resp"
proof -
  let ?e = "model_encode svc q" and ?m = "map row_embedding (rows t)"
  have norms: "\<forall>e\<in>set ?m. normalize_eps \<le> l2_norm e" using assms(3) by simp
  have m: "map snd (map (\<lambda>r. (row_chunk r, row_embedding r)) (rows t)) = ?m" by simp
  have ne: "\<forall>r\<in>set (rows t). row_chunk r \<noteq> []"
    using assms(1) by (simp add: corpus_inv_def list_all_iff)
  note fb = semantic_fallback_corpus [OF assms(1), of svc q]
  show ?thesis
  proof (cases "semantic_search ?e ?m")
    case (Inl err)
    with fb assms(4) show ?thesis by simp
  next
    case (Inr res)
    show ?thesis
    proof (cases res)
      case Out_of_scope
      with Inr have "spec_retrieve ?e ?m = None"
        using spec_retrieve_Out_of_scope assms(2) norms by blast
      then have "spec_of svc b t (O_Semantic q) (O_Done Out_of_scope_answer)"
        by (intro ostep.no_match) (simp only: m)
      moreover have "resp = out_of_scope_response" using fb assms(4) Inr Out_of_scope by simp
      ultimately show ?thesis by fastforce
    next
      case (Best_match i c)
      with Inr have s: "semantic_search ?e ?m = Inr (Best_match i c)" by simp
      then have r: "spec_retrieve ?e ?m = Some (i, c)"
        using spec_retrieve_Best_match assms(2) norms by blast
      have i: "i < length (rows t)" using semantic_search_Best_match [OF s] by simp
      let ?a = "extract_best_sentence (fuzz_ratio svc) (row_chunk (rows t ! i)) q"
      have x: "spec_extract (\<lambda>x. fuzz_ratio svc (py_lower x) (py_lower q)) (row_chunk (rows t ! i)) ?a"
        using ne i by (intro extract_best_sentence_spec) simp
      have r': "spec_retrieve ?e (map snd (map (\<lambda>r. (row_chunk r, row_embedding r)) (rows t))) = Some (i, c)"
        using r by (simp only: m)
      have "spec_of svc b t (O_Semantic q) (O_Done (Semantic_answer ?a c))"
        by (rule ostep.matched [where embed = "model_encode svc" and q = q, OF r']) (use x i in simp)
      moreover have "resp = pdf_response (py_strip ?a) (round2 c)" using fb assms(4) s by simp
      ultimately show ?thesis
        by (intro exI [of _ "Semantic_answer ?a c"]) (simp add: pdf_response_def round2_rounded)
    qed
  qed
qed

lemmas query_eval = query_request_text request_text_def semantic_fallback_def load_data_from_db_def
  select_all_def np_array_def retrieval_eval extract_best_sentence_def best_sentences_def
  sentence_eval pdf_response_def out_of_scope_response_def chatterbot_response_def
  prompt_response_def round2_def round_half_even_def

section \<open>Claims\<close>

text \<open>
  C1: The handler implements the specification's orchestrator. On a store
  holding an ingested corpus, with embeddings of norm at least torch's eps, every
  response the handler returns is realised by an outcome the specification's state
  machine reaches from the raw request: the prompt for input, the responder's text
  (stripped) with source ChatterBot, the out-of-scope message, or the extracted answer
  of the first best-matching chunk with its similarity rounded to two decimals.
\<close>

theorem query_refines_spec:
  assumes "corpus_inv d t"
    and "\<forall>c. normalize_eps \<le> l2_norm (model_encode svc c)"
    and "\<forall>r\<in>set (rows t). normalize_eps \<le> l2_norm (row_embedding r)"
    and "fst (query svc (Some t) b data) = Inr resp"
  shows "\<exists>out. (spec_of svc b t)\<^sup>*\<^sup>* (O_Start (case data of None \<Rightarrow> [] | Some q \<Rightarrow> q)) (O_Done out) \<and>
           realises out resp"
proof -
  let ?raw = "case data of None \<Rightarrow> [] | Some q \<Rightarrow> q"
  have rt: "request_text data = py_strip ?raw" by (simp add: request_text_def)
  show ?thesis
  proof (cases "request_text data = []")
    case True
    then have "spec_of svc b t (O_Start ?raw) (O_Done Prompt_for_input)"
      by (intro ostep.reject) (simp add: rt)
    moreover have "resp = prompt_response" using assms(4) True by (simp add: query_request_text)
    ultimately show ?thesis by fastforce
  next
    case False
    have s1: "spec_of svc b t (O_Start ?raw) (O_Pattern (request_text data))"
      using False unfolding rt by (rule ostep.attempt)
    obtain r c b' where g: "chatbot_get_response svc b (request_text data) = ((r, c), b')"
      by (metis prod.exhaust)
    show ?thesis
    proof (cases "1 / 2 < c")
      case True
      have "spec_of svc b t (O_Pattern (request_text data)) (O_Done (Pattern_answer r))"
        using g True by (intro ostep.accept [where c = c]) simp_all
      moreover have "resp = chatterbot_response (py_strip r)"
        using assms(4) False g True by (simp add: query_request_text)
      ultimately show ?thesis using s1 by (fastforce intro: converse_rtranclp_into_rtranclp)
    next
      case c: False
      have s2: "spec_of svc b t (O_Pattern (request_text data)) (O_Semantic (request_text data))"
        using g c by (intro ostep.decline [where t = r and c = c]) simp_all
      have "semantic_fallback svc (Some t) (request_text data) = Inr resp"
        using assms(4) query_declined [OF False g c, of "Some t"] by simp
      from semantic_fallback_spec [OF assms(1) _ assms(3) this, of b] assms(2)
      obtain out where "spec_of svc b t (O_Semantic (request_text data)) (O_Done out)" and "realises out resp"
        by blast
      with s1 s2 show ?thesis by (blast intro: converse_rtranclp_into_rtranclp)
    qed
  qed
qed

lemma query_refines_spec_witness:
  "corpus_inv 2 example_table \<and> (\<forall>c. normalize_eps \<le> l2_norm (model_encode example_services c)) \<and>
   normalize_eps \<le> l2_norm (row_embedding (hd (rows example_table))) \<and>
   fst (query example_services (Some example_table) () (Some (ascii ''hi''))) =
     Inr (pdf_response (py_strip (extract_best_sentence (\<lambda>a b. 0) (ascii ''Revenue grew.'') (ascii ''hi''))) (round2 1)) \<and>
   (\<exists>out. (spec_of example_services () example_table)\<^sup>*\<^sup>* (O_Start (ascii ''hi'')) (O_Done out) \<and>
      realises out (pdf_response (py_strip (extract_best_sentence (\<lambda>a b. 0) (ascii ''Revenue grew.'') (ascii ''hi''))) (round2 1)))"
proof -
  have n: "normalize_eps \<le> l2_norm [1, 0]" by (simp add: l2_norm_def dot_def normalize_eps_def)
  have h2: "\<forall>c. normalize_eps \<le> l2_norm (model_encode example_services c)" using n by simp
  have h3: "\<forall>r\<in>set (rows example_table). normalize_eps \<le> l2_norm (row_embedding r)" using n by simp
  have ne: "request_text (Some (ascii ''hi'')) \<noteq> []" unfolding example_request by (simp add: ascii_def)
  have g: "chatbot_get_response example_services () (request_text (Some (ascii ''hi''))) = ((ascii ''I do not know.'', 0), ())"
    by simp
  have c: "\<not> (1::real) / 2 < 0" by simp
  have h4: "fst (query example_services (Some example_table) () (Some (ascii ''hi''))) =
     Inr (pdf_response (py_strip (extract_best_sentence (\<lambda>a b. 0) (ascii ''Revenue grew.'') (ascii ''hi''))) (round2 1))"
    using query_declined [OF ne g c, of "Some example_table"]
      semantic_fallback_corpus [OF example_corpus_inv, of example_services "request_text (Some (ascii ''hi''))"]
    by (simp add: example_request example_search)
  from query_refines_spec [OF example_corpus_inv h2 h3 h4] show ?thesis
    using example_corpus_inv h2 h4 n by simp
qed

text \<open>
  C7: The semantic search is only attempted after the pattern responder: a run
  that reaches the semantic stage has tried the responder on the same stripped,
  non-empty query, and the responder's confidence was at most 0.5.
\<close>

theorem semantic_after_pattern:
  assumes "(qstep svc db)\<^sup>*\<^sup>* (Start data b) (Semantic_attempted q b')"
  shows "q = request_text data \<and> q \<noteq> [] \<and>
         (\<exists>t c. chatbot_get_response svc b q = ((t, c), b') \<and> \<not> 1 / 2 < c)"
proof -
  have "run_inv svc data b (Semantic_attempted q b')" by (rule qsteps_run_inv [OF assms])
  then show ?thesis unfolding run_inv_def qstate.case by assumption
qed

lemma semantic_after_pattern_witness:
  "(qstep example_services None)\<^sup>*\<^sup>* (Start (Some (ascii ''hi'')) ()) (Semantic_attempted (ascii ''hi'') ()) \<and>
   ascii ''hi'' = request_text (Some (ascii ''hi'')) \<and> ascii ''hi'' \<noteq> []"
proof -
  have r: "request_text (Some (ascii ''hi'')) = ascii ''hi''" by (simp add: request_text_def str_defs)
  have ne: "ascii ''hi'' \<noteq> []" by (simp add: ascii_def)
  have s1: "qstep example_services None (Start (Some (ascii ''hi'')) ()) (Pattern_attempted (ascii ''hi'') ())"
    using qstep.attempt_pattern [of "Some (ascii ''hi'')" example_services None "()"] ne unfolding r by blast
  have s2: "qstep example_services None (Pattern_attempted (ascii ''hi'') ()) (Semantic_attempted (ascii ''hi'') ())"
    by (rule qstep.attempt_semantic [where t = "ascii ''I do not know.''" and c = 0]) simp_all
  have h: "(qstep example_services None)\<^sup>*\<^sup>* (Start (Some (ascii ''hi'')) ()) (Semantic_attempted (ascii ''hi'') ())"
    using s1 s2 by (rule converse_rtranclp_into_rtranclp [OF _ r_into_rtranclp])
  show ?thesis
  proof (intro conjI)
    show "(qstep example_services None)\<^sup>*\<^sup>* (Start (Some (ascii ''hi'')) ()) (Semantic_attempted (ascii ''hi'') ())"
      by (rule h)
    from semantic_after_pattern [OF h] show "ascii ''hi'' = request_text (Some (ascii ''hi''))"
      by (rule conjunct1)
    from semantic_after_pattern [OF h] show "ascii ''hi'' \<noteq> []"
      by (rule conjunct1 [OF conjunct2])
  qed
qed

text \<open>
  C28: An empty or whitespace-only query (or a request without a query) is
  answered with the prompt for a valid query, without a status field and without
  calling the responder, the store or the encoder: the chatbot state is unchanged.
\<close>

theorem query_empty:
  "request_text data = [] \<Longrightarrow> query svc db b data = (Inr prompt_response, b)"
  by (simp add: query_request_text)

lemma query_empty_witness:
  "request_text (Some (ascii '' \<newline> '')) = [] \<and>
   query example_services None () (Some (ascii '' \<newline> '')) = (Inr prompt_response, ()) \<and>
   resp_status prompt_response = None"
proof -
  have h: "request_text (Some (ascii '' \<newline> '')) = []" by (simp add: request_text_def str_defs)
  show ?thesis using h query_empty [OF h] by (simp add: prompt_response_def)
qed

text \<open>
  C29: A responder confidence above 0.5 is authoritative: its reply, stripped,
  is returned with source ChatterBot, whatever the store holds.
\<close>

theorem query_pattern_accepted:
  assumes "request_text data \<noteq> []"
    and "chatbot_get_response svc b (request_text data) = ((t, c), b')" and "1 / 2 < c"
  shows "query svc db b data = (Inr (chatterbot_response (py_strip t)), b')"
  using assms by (simp add: query_request_text)

lemma query_pattern_accepted_witness:
  "request_text (Some (ascii ''hello'')) \<noteq> [] \<and>
   chatbot_get_response (example_services\<lparr>chatbot_get_response := \<lambda>b q. ((ascii '' Hi! '', 9 / 10), b)\<rparr>) ()
     (request_text (Some (ascii ''hello''))) = ((ascii '' Hi! '', 9 / 10), ()) \<and> (1::real) / 2 < 9 / 10 \<and>
   query (example_services\<lparr>chatbot_get_response := \<lambda>b q. ((ascii '' Hi! '', 9 / 10), b)\<rparr>) None () (Some (ascii ''hello'')) =
     (Inr (chatterbot_response (py_strip (ascii '' Hi! ''))), ())"
proof -
  have h1: "request_text (Some (ascii ''hello'')) \<noteq> []" by (simp add: request_text_def str_defs)
  have h2: "chatbot_get_response (example_services\<lparr>chatbot_get_response := \<lambda>b q. ((ascii '' Hi! '', 9 / 10), b)\<rparr>) ()
     (request_text (Some (ascii ''hello''))) = ((ascii '' Hi! '', 9 / 10), ())" by simp
  have h3: "(1::real) / 2 < 9 / 10" by simp
  show ?thesis using h1 h2 h3 query_pattern_accepted [OF h1 h2 h3, of None] by blast
qed


text \<open>
  C5: When the responder declines a non-empty query and the store holds an
  ingested corpus, a match found by retrieval is answered from the chunk of the first
  best-scoring row, with the extracted sentences stripped, the similarity rounded to
  two places and source "Extracted from PDF".
\<close>

theorem query_semantic_answer:
  assumes "corpus_inv d t" and "request_text data \<noteq> []"
    and "chatbot_get_response svc b (request_text data) = ((r, c), b')" and "\<not> 1 / 2 < c"
    and "semantic_search (model_encode svc (request_text data)) (map row_embedding (rows t)) = Inr (Best_match i s)"
  shows "i < length (rows t) \<and>
         is_first_max (map (cos_sim (model_encode svc (request_text data))) (map row_embedding (rows t))) i \<and>
         query svc (Some t) b data =
           (Inr (pdf_response (py_strip (extract_best_sentence (fuzz_ratio svc) (row_chunk (rows t ! i)) (request_text data)))
                   (round2 s)), b')"
proof -
  from semantic_search_Best_match [OF assms(5)]
  have "i < length (rows t)" and "is_first_max (map (cos_sim (model_encode svc (request_text data))) (map row_embedding (rows t))) i"
    by simp_all
  moreover have "query svc (Some t) b data = (semantic_fallback svc (Some t) (request_text data), b')"
    by (rule query_declined [OF assms(2-4)])
  ultimately show ?thesis
    using semantic_fallback_corpus [OF assms(1), of svc "request_text data"] assms(5) by simp
qed

lemma query_semantic_answer_witness:
  "corpus_inv 2 example_table \<and> request_text (Some (ascii ''hi'')) \<noteq> [] \<and>
   chatbot_get_response example_services () (request_text (Some (ascii ''hi''))) = ((ascii ''I do not know.'', 0), ()) \<and>
   \<not> (1::real) / 2 < 0 \<and>
   semantic_search (model_encode example_services (request_text (Some (ascii ''hi''))))
     (map row_embedding (rows example_table)) = Inr (Best_match 0 1) \<and>
   query example_services (Some example_table) () (Some (ascii ''hi'')) =
     (Inr (pdf_response (py_strip (extract_best_sentence (\<lambda>a b. 0) (ascii ''Revenue grew.'') (ascii ''hi''))) (round2 1)), ())"
proof -
  have h1: "corpus_inv 2 example_table" by (rule example_corpus_inv)
  have h2: "request_text (Some (ascii ''hi'')) \<noteq> []" unfolding example_request by (simp add: ascii_def)
  have h3: "chatbot_get_response example_services () (request_text (Some (ascii ''hi''))) = ((ascii ''I do not know.'', 0), ())"
    by simp
  have h4: "\<not> (1::real) / 2 < 0" by simp
  have h5: "semantic_search (model_encode example_services (request_text (Some (ascii ''hi''))))
     (map row_embedding (rows example_table)) = Inr (Best_match 0 1)"
    by (simp add: example_search)
  from query_semantic_answer [OF h1 h2 h3 h4 h5] have
    "query example_services (Some example_table) () (Some (ascii ''hi'')) =
     (Inr (pdf_response (py_strip (extract_best_sentence (\<lambda>a b. 0) (ascii ''Revenue grew.'') (ascii ''hi''))) (round2 1)), ())"
    unfolding example_request by simp
  with h1 h2 h3 h4 h5 show ?thesis by blast
qed

text \<open>
  C11: When the responder declines and every row of a non-empty ingested corpus
  has cosine similarity below 0.5 with the query's embedding, the handler answers
  out of scope, with status "error".
\<close>

theorem query_out_of_scope:
  assumes "corpus_inv (length (model_encode svc (request_text data))) t" and "rows t \<noteq> []"
    and "request_text data \<noteq> []"
    and "chatbot_get_response svc b (request_text data) = ((r, c), b')" and "\<not> 1 / 2 < c"
    and "\<forall>j<length (rows t). cos_sim (model_encode svc (request_text data)) (row_embedding (rows t ! j)) < 1 / 2"
  shows "query svc (Some t) b data = (Inr out_of_scope_response, b')"
proof -
  let ?q = "model_encode svc (request_text data)"
  have ne: "map row_embedding (rows t) \<noteq> []" using assms(2) by simp
  have dim: "list_all (\<lambda>e. length e = length ?q) (map row_embedding (rows t))"
    using assms(1) by (simp add: corpus_inv_def list_all_iff)
  have "semantic_search ?q (map row_embedding (rows t)) = Inr Out_of_scope"
    using semantic_search_Out_of_scope_iff [OF ne dim] assms(6) by simp
  then show ?thesis
    using query_declined [OF assms(3-5), of "Some t"] semantic_fallback_corpus [OF assms(1), of svc "request_text data"]
    by simp
qed

lemma query_out_of_scope_witness:
  "corpus_inv (length (model_encode example_services (request_text (Some (ascii ''hi'')))))
     (example_table\<lparr>rows := [(hd (rows example_table))\<lparr>row_embedding := [0, 1]\<rparr>]\<rparr>) \<and>
   query example_services (Some (example_table\<lparr>rows := [(hd (rows example_table))\<lparr>row_embedding := [0, 1]\<rparr>]\<rparr>)) ()
     (Some (ascii ''hi'')) = (Inr out_of_scope_response, ())"
proof -
  let ?t = "example_table\<lparr>rows := [(hd (rows example_table))\<lparr>row_embedding := [0, 1]\<rparr>]\<rparr>"
  have h1: "corpus_inv (length (model_encode example_services (request_text (Some (ascii ''hi''))))) ?t"
    by (simp add: corpus_inv_def table_inv_def str_defs)
  have h2: "rows ?t \<noteq> []" by simp
  have h3: "request_text (Some (ascii ''hi'')) \<noteq> []" unfolding example_request by (simp add: ascii_def)
  have h4: "chatbot_get_response example_services () (request_text (Some (ascii ''hi''))) = ((ascii ''I do not know.'', 0), ())"
    by simp
  have h5: "\<not> (1::real) / 2 < 0" by simp
  have h6: "\<forall>j<length (rows ?t). cos_sim (model_encode example_services (request_text (Some (ascii ''hi''))))
              (row_embedding (rows ?t ! j)) < 1 / 2"
    by (simp add: cos_sim_def dot_def)
  show ?thesis using h1 query_out_of_scope [OF h1 h2 h3 h4 h5 h6] by blast
qed

text \<open>
  C23: When the responder declines, an empty store makes the handler raise
  \<open>RuntimeError\<close> (torch cannot build the similarity of an empty matrix) and a missing
  table \<open>OperationalError\<close>; neither is answered "no match".
\<close>

theorem query_empty_store:
  assumes "request_text data \<noteq> []"
    and "chatbot_get_response svc b (request_text data) = ((r, c), b')" and "\<not> 1 / 2 < c"
    and "rows t = []"
  shows "query svc (Some t) b data = (Inl RuntimeError, b') \<and> query svc None b data = (Inl OperationalError, b')"
  using query_declined [OF assms(1-3)] assms(4)
  by (simp add: semantic_fallback_def load_data_from_db_def select_all_def np_array_def
      semantic_search_def pytorch_cos_sim_def)

lemma query_empty_store_witness:
  "query example_services (Some empty_table) () (Some (ascii ''hi'')) = (Inl RuntimeError, ()) \<and>
   query example_services None () (Some (ascii ''hi'')) = (Inl OperationalError, ())"
proof -
  have h1: "request_text (Some (ascii ''hi'')) \<noteq> []" unfolding example_request by (simp add: ascii_def)
  have h2: "chatbot_get_response example_services () (request_text (Some (ascii ''hi''))) = ((ascii ''I do not know.'', 0), ())"
    by simp
  have h3: "\<not> (1::real) / 2 < 0" by simp
  have h4: "rows empty_table = []" by (simp add: empty_table_def)
  show ?thesis by (rule query_empty_store [OF h1 h2 h3 h4])
qed

text \<open>
  C12: Every confidence score the handler reports lies between 0.5 and 1: it is
  only reported on a retrieval match, whose similarity is at least 0.5 and, by
  Cauchy-Schwarz, at most 1, and rounding to two places keeps it in that range.
\<close>

theorem query_confidence_range:
  assumes "fst (query svc db b data) = Inr resp" and "resp_confidence resp = Some c"
  shows "1 / 2 \<le> c \<and> c \<le> 1"
proof -
  from query_confidence_cases [OF assms] obtain q where "semantic_fallback svc db q = Inr resp" by blast
  from semantic_fallback_confidence [OF this assms(2)] show ?thesis .
qed

lemma query_confidence_range_witness:
  "fst (query example_services (Some example_table) () (Some (ascii ''hi''))) =
     Inr (pdf_response (py_strip (extract_best_sentence (\<lambda>a b. 0) (ascii ''Revenue grew.'') (ascii ''hi''))) (round2 1)) \<and>
   resp_confidence (pdf_response (py_strip (extract_best_sentence (\<lambda>a b. 0) (ascii ''Revenue grew.'') (ascii ''hi''))) (round2 1)) =
     Some (round2 1) \<and>
   1 / 2 \<le> round2 1 \<and> round2 1 \<le> 1"
proof -
  have h2: "request_text (Some (ascii ''hi'')) \<noteq> []" unfolding example_request by (simp add: ascii_def)
  have h3: "chatbot_get_response example_services () (request_text (Some (ascii ''hi''))) = ((ascii ''I do not know.'', 0), ())"
    by simp
  have h4: "\<not> (1::real) / 2 < 0" by simp
  have h1: "fst (query example_services (Some example_table) () (Some (ascii ''hi''))) =
     Inr (pdf_response (py_strip (extract_best_sentence (\<lambda>a b. 0) (ascii ''Revenue grew.'') (ascii ''hi''))) (round2 1))"
    using query_declined [OF h2 h3 h4, of "Some example_table"]
      semantic_fallback_corpus [OF example_corpus_inv, of example_services "request_text (Some (ascii ''hi''))"]
    by (simp add: example_request example_search)
  have h5: "resp_confidence (pdf_response (py_strip (extract_best_sentence (\<lambda>a b. 0) (ascii ''Revenue grew.'') (ascii ''hi''))) (round2 1)) =
     Some (round2 1)" by (simp add: pdf_response_def)
  show ?thesis using h1 h5 query_confidence_range [OF h1 h5] by blast
qed

end
