(* ===== verification/Chatbot_Training.thy ===== *)
theory Chatbot_Training
  imports Segmenter
begin

text \<open>
  \<open>train_chatbot()\<close> (\<open>src/backend/app.py\<close>, lines 74--93): every chunk of the
  document is split at \<open>". "\<close>; for each sentence but the last, the stripped
  sentence is a question and the three sentences starting at it, joined again with
  \<open>". "\<close>, are its answer, kept when the question is longer than 5 and the answer
  longer than 10 characters. The pairs are flattened into one list
  (\<open>sum([[q, a] for q, a in qa_pairs], [])\<close>) and given to ChatterBot's
  \<open>ListTrainer.train\<close>. The variable \<open>answer\<close> (line 83) is computed and never
  used; it has no effect and is not modelled.
\<close>

section \<open>Question/answer pairs\<close>

definition dot_space :: ustr where
  "dot_space = ascii ''. ''"

definition qa_pairs_of_chunk :: "ustr \<Rightarrow> (ustr \<times> ustr) list" where
  "qa_pairs_of_chunk chunk =
     (let sentences = py_split chunk dot_space
      in concat (map (\<lambda>i. let question = py_strip (sentences ! i);
                              full_answer = py_join dot_space (take 3 (drop i sentences))
                          in if 5 < length question \<and> 10 < length full_answer
                             then [(question, full_answer)] else [])
                 [0..<length sentences - 1]))"

definition qa_pairs :: "ustr list \<Rightarrow> (ustr \<times> ustr) list" where
  "qa_pairs pdf_chunks = concat (map qa_pairs_of_chunk pdf_chunks)"

text \<open>\<open>sum([[q, a] for q, a in qa_pairs], [])\<close>\<close>

definition conversation :: "(ustr \<times> ustr) list \<Rightarrow> ustr list" where
  "conversation ps = concat (map (\<lambda>(q, a). [q, a]) ps)"

text \<open>
  The whole of \<open>train_chatbot\<close>: \<open>extracted\<close> is the extractor's result for
  \<open>"Power_Grid_Ltd.pdf"\<close>, \<open>train\<close> the trainer's effect on the bot's state.
\<close>

definition train_chatbot :: "('b \<Rightarrow> ustr list \<Rightarrow> 'b) \<Rightarrow> py_error + ustr \<Rightarrow> 'b \<Rightarrow> 'b" where
  "train_chatbot train extracted chatbot = train chatbot (conversation (qa_pairs (extract_pdf_text extracted)))"

section \<open>Lemmas\<close>

lemma qa_pairs_of_chunk_mem:
  "(q, a) \<in> set (qa_pairs_of_chunk c) \<longleftrightarrow>
     (\<exists>i. Suc i < length (py_split c dot_space) \<and> q = py_strip (py_split c dot_space ! i) \<and>
          a = py_join dot_space (take 3 (drop i (py_split c dot_space))) \<and> 5 < length q \<and> 10 < length a)"
  apply (auto simp: qa_pairs_of_chunk_def Let_def split: if_splits)
  subgoal for i by (intro exI [of _ i]) simp
  done

lemma py_join_Cons_prefix: "prefix x (py_join sep (x # xs))"
  by (cases xs) simp_all

lemma take_drop_Cons: "i < length xs \<Longrightarrow> take (Suc n) (drop i xs) = xs ! i # take n (drop (Suc i) xs)"
  by (simp add: Cons_nth_drop_Suc [symmetric])

lemma length_concat_map_le:
  "(\<forall>x\<in>set xs. length (f x) \<le> 1) \<Longrightarrow> length (concat (map f xs)) \<le> length xs"
  by (induction xs) fastforce+

lemmas training_eval = qa_pairs_of_chunk_def dot_space_def py_split_def py_split_acc.simps str_defs upt_rec

section \<open>Claims\<close>

text \<open>
  C30: Every trained answer contains its own question: the answer is
  \<open>". ".join(sentences[i:i+3])\<close>, which starts at the question's sentence, so the
  bot learns to echo the question back (the unused \<open>answer\<close> variable suggests
  the intent was the following sentence).
\<close>

theorem qa_pairs_answer_contains_question:
  "(q, a) \<in> set (qa_pairs (extract_pdf_text r)) \<Longrightarrow> sublist q a"
proof -
  assume "(q, a) \<in> set (qa_pairs (extract_pdf_text r))"
  then obtain c where "(q, a) \<in> set (qa_pairs_of_chunk c)" by (auto simp: qa_pairs_def)
  then obtain i where i: "Suc i < length (py_split c dot_space)"
    and q: "q = py_strip (py_split c dot_space ! i)"
    and a: "a = py_join dot_space (take 3 (drop i (py_split c dot_space)))"
    by (auto simp: qa_pairs_of_chunk_mem)
  from i have "take 3 (drop i (py_split c dot_space)) = py_split c dot_space ! i # take 2 (drop (Suc i) (py_split c dot_space))"
    by (simp add: take_drop_Cons [symmetric] numeral_eq_Suc)
  then have "prefix (py_split c dot_space ! i) a" by (simp add: a py_join_Cons_prefix)
  then have "sublist (py_split c dot_space ! i) a" by (rule prefix_imp_sublist)
  with q show ?thesis using py_strip_sublist sublist_order.order.trans by blast
qed

lemma qa_pairs_answer_contains_question_witness:
  "(ascii ''Revenue grew strongly'', ascii ''Revenue grew strongly. Profit fell sharply. Costs rose.'')
     \<in> set (qa_pairs (extract_pdf_text (Inr (ascii ''Revenue grew strongly. Profit fell sharply. Costs rose.'')))) \<and>
   sublist (ascii ''Revenue grew strongly'') (ascii ''Revenue grew strongly. Profit fell sharply. Costs rose.'')"
proof -
  have h: "(ascii ''Revenue grew strongly'', ascii ''Revenue grew strongly. Profit fell sharply. Costs rose.'')
     \<in> set (qa_pairs (extract_pdf_text (Inr (ascii ''Revenue grew strongly. Profit fell sharply. Costs rose.''))))"
    by (simp add: qa_pairs_def segment_eval training_eval)
  show ?thesis using h qa_pairs_answer_contains_question [OF h] by blast
qed

text \<open>
  C31: A chunk of n sentences gives at most n - 1 pairs, each with a question
  longer than 5 and an answer longer than 10 characters.
\<close>

theorem qa_pairs_of_chunk_bounds:
  "length (qa_pairs_of_chunk c) \<le> length (py_split c dot_space) - 1 \<and>
   (\<forall>(q, a)\<in>set (qa_pairs_of_chunk c). 5 < length q \<and> 10 < length a)"
proof
  show "length (qa_pairs_of_chunk c) \<le> length (py_split c dot_space) - 1"
    unfolding qa_pairs_of_chunk_def Let_def
    by (rule order.trans [OF length_concat_map_le]) auto
  show "\<forall>(q, a)\<in>set (qa_pairs_of_chunk c). 5 < length q \<and> 10 < length a"
    using qa_pairs_of_chunk_mem by blast
qed

lemma qa_pairs_of_chunk_bounds_witness:
  "length (qa_pairs_of_chunk (ascii ''Revenue grew strongly. Profit fell sharply. Costs rose.'')) = 2 \<and>
   length (py_split (ascii ''Revenue grew strongly. Profit fell sharply. Costs rose.'') dot_space) = 3 \<and>
   5 < length (fst (hd (qa_pairs_of_chunk (ascii ''Revenue grew strongly. Profit fell sharply. Costs rose.'')))) \<and>
   10 < length (snd (hd (qa_pairs_of_chunk (ascii ''Revenue grew strongly. Profit fell sharply. Costs rose.''))))"
proof -
  have h1: "length (qa_pairs_of_chunk (ascii ''Revenue grew strongly. Profit fell sharply. Costs rose.'')) = 2"
    by (simp add: training_eval)
  have h2: "length (py_split (ascii ''Revenue grew strongly. Profit fell sharply. Costs rose.'') dot_space) = 3"
    by (simp add: training_eval)
  have "hd (qa_pairs_of_chunk (ascii ''Revenue grew strongly. Profit fell sharply. Costs rose.'')) \<in> set (qa_pairs_of_chunk (ascii ''Revenue grew strongly. Profit fell sharply. Costs rose.''))"
    using h1 by (intro hd_in_set) auto
  with qa_pairs_of_chunk_bounds [of "ascii ''Revenue grew strongly. Profit fell sharply. Costs rose.''"] have
    "5 < length (fst (hd (qa_pairs_of_chunk (ascii ''Revenue grew strongly. Profit fell sharply. Costs rose.'')))) \<and>
     10 < length (snd (hd (qa_pairs_of_chunk (ascii ''Revenue grew strongly. Profit fell sharply. Costs rose.''))))"
    by (auto simp: case_prod_beta)
  with h1 h2 show ?thesis by blast
qed

end
