(* ===== verification/Spec2Isabelle.thy ===== *)
theory Spec2Isabelle
  imports Query Chatbot_Training
begin

text \<open>
  A verification library for \<open>src/backend/app.py\<close> of Power-Assistant, a Flask
  service that answers questions about one PDF document. At start-up (\<open>__main__\<close>)
  the document's text is cut into chunks, each chunk is embedded by a
  sentence-transformer model and stored in the sqlite table \<open>pdf_chunks\<close>, and a
  ChatterBot instance is trained on question/answer pairs cut from the same chunks.
  A request to \<open>/query\<close> first asks ChatterBot; if its confidence is at most 0.5, the
  stored embeddings are loaded, the query is embedded, the row of highest cosine
  similarity is selected, a similarity below 0.5 is answered "out of scope", and
  otherwise the two sentences of the chunk closest to the query are returned.

  \<^bold>\<open>Theories and what they model.\<close>
  \<^item> \<open>Prelude\<close>: Python strings as lists of code points (\<open>ustr\<close>), \<open>str.strip\<close>,
    \<open>lower\<close>, \<open>split\<close>, \<open>join\<close> with CPython's whitespace set, the exceptions
    (\<open>py_error\<close>), and \<open>is_first_max\<close>, the contract of an arg-max.
  \<^item> \<open>Regex_Split\<close>: \<open>re.split\<close> as CPython's scanner (\<open>re_split_from\<close>) over a
    matcher that may look behind; its round trips (\<open>concat_re_split\<close> when the
    groups cover each match, \<open>weave_re_split\<close> when the pattern has no groups).
  \<^item> \<open>Segmenter\<close>: \<open>extract_pdf_text\<close> (lines 27--40); \<open>chunk_match\<close> is the pattern
    \<open>(?<=\n)([0-9]+\.[0-9]+|[-\<bullet>]|\n{2,})\<close>, \<open>split_chunks\<close> the strip and filter.
    The extractor's result (\<open>Inl\<close> an exception, \<open>Inr\<close> the text) is the input.
  \<^item> \<open>Vector_Store\<close>: the table with its AUTOINCREMENT counter (\<open>table\<close>, \<open>row\<close>),
    \<open>CREATE TABLE IF NOT EXISTS\<close> (\<open>create_table\<close>), the DELETE/INSERT transaction of
    \<open>compute_and_store_embeddings\<close> (\<open>exec_stmt\<close>, \<open>run_transaction\<close>; a missing
    table raises \<open>OperationalError\<close> and nothing is written) and
    \<open>load_data_from_db\<close> (\<open>select_all\<close> in rowid order, \<open>np_array\<close> raising
    \<open>ValueError\<close> on vectors of different lengths). \<open>corpus_inv\<close> is the store's
    invariant.
  \<^item> \<open>Retrieval\<close>: lines 126--138: \<open>pytorch_cos_sim\<close> with torch's eps
    normalisation (\<open>normalize_eps\<close> = 1e-12), \<open>torch_argmax\<close> as a left-to-right scan
    (\<open>argmax_acc\<close>), and \<open>semantic_search\<close> with the 0.5 threshold.
  \<^item> \<open>Answer_Extractor\<close>: \<open>extract_best_sentence\<close> (lines 155--166): the sentence
    pattern with its three lookbehinds (\<open>sentence_match\<close>), the stable descending
    sort on \<open>fuzz.ratio\<close> and the top two (\<open>best_sentences\<close>).
  \<^item> \<open>Chatbot_Training\<close>: \<open>train_chatbot\<close> (lines 74--93): \<open>qa_pairs_of_chunk\<close>,
    \<open>qa_pairs\<close> and the flattened \<open>conversation\<close> handed to the trainer, whose effect
    on the bot is a parameter.
  \<^item> \<open>Orchestrator_Spec\<close>: the specification's contracts, independent of the code:
    \<open>spec_retrieve\<close> (plain cosine similarity, first index of the maximum, no match
    below 0.5 or on an empty corpus), \<open>spec_extract\<close> (the two best sentences) and the
    orchestrator \<open>ostep\<close> with its outcomes; \<open>rounded_2dp\<close> is "rounded to two
    decimals".
  \<^item> \<open>Query\<close>: the handler \<open>query\<close> (lines 103--149) with \<open>semantic_fallback\<close>
    (lines 121--149) and the JSON payloads; the external handles (model, ChatterBot,
    fuzz, pdfminer, trainer) are the fields of a \<open>services\<close> record, and ChatterBot's
    state, which \<open>get_response\<close> updates, is threaded through. \<open>qstep\<close> writes the
    handler's branches as steps (for the order of the calls); \<open>realises\<close> maps its
    JSON responses to the specification's outcomes.
  \<^item> This theory: \<open>format_response\<close> (lines 169--182, never called) and the
    start-up \<open>main\<close> (lines 185--198) on an \<open>app_state\<close> (the database and the bot).

  \<^bold>\<open>What the lemmas show.\<close> The segmenter's chunks are non-empty, stripped,
  contiguous pieces of the text in order; the code's pattern keeps markers as chunks
  of their own. Ingestion and loading round-trip,
  keep the corpus invariant, number rows after the AUTOINCREMENT counter and leave the
  store untouched when there are no chunks; a ragged store cannot be loaded.
  Retrieval picks the first row of maximal similarity and answers out of scope exactly
  below 0.5. The answer extractor's sort is a two-pass top-2 selection and its
  fallback message is unreachable. The handler implements the specification's
  orchestrator on every response it returns (\<open>query_refines_spec\<close>), tries the
  semantic search only after the responder declined, reports confidences in
  [0.5, 1], and raises on an empty store where the specification answers "no match".
  Start-up always completes, leaves a store satisfying the invariant and trains the
  bot on the stored chunks. The specification's example document and end-to-end
  scenario are run on the model (they are not split as the specification expects).

  \<^bold>\<open>Choices.\<close> Floats are reals: float32 rounding in torch and numpy is not
  modelled, and \<open>round(x, 2)\<close> is round-half-even on the exact value; the
  refinement asks embeddings of norm at least torch's eps, where torch's cosine is the
  specification's. Division by zero is 0 in HOL, so the model does not tell torch's
  eps apart from a NaN on zero vectors. Every loop is
  structural recursion or a \<open>function\<close> with a measure (\<open>re_split_from\<close> on the
  distance to the end of the string, \<open>py_split_acc\<close> on the rest of the string), so
  no fuel is needed and every operation is total. \<open>\w\<close> and \<open>str.lower\<close> are exact on
  ASCII only. pickle round-trips exactly and is the identity.

  \<^bold>\<open>Not modelled.\<close> Flask (the \<open>home\<close> route, parsing of a non-JSON body, jsonify,
  status codes, the request loop of \<open>app.run\<close> and its threads), the internals of the sentence-transformer
  model, of ChatterBot, of pdfminer and of rapidfuzz, which are parameters, and the
  printing to stdout.
\<close>

section \<open>Response formatting\<close>

text \<open>
  \<open>format_response(response_text)\<close>, lines 169--182: the nested dictionary, with the
  confidence label decided by the length of the answer in code points.
\<close>

record formatted_response =
  fmt_status :: ustr
  fmt_answer :: ustr
  fmt_source :: ustr
  fmt_confidence :: ustr

definition format_response :: "ustr \<Rightarrow> formatted_response" where
  "format_response response_text =
     \<lparr>fmt_status = ascii ''success'', fmt_answer = response_text,
      fmt_source = ascii ''Extracted from PDF'',
      fmt_confidence = (if 20 < length response_text then ascii ''High'' else ascii ''Medium'')\<rparr>"

section \<open>The application\<close>

text \<open>
  The state the module keeps between requests: the sqlite file (\<open>DATABASE\<close>) and the
  ChatterBot instance's own state.
\<close>

record 'b app_state =
  app_db :: database
  app_bot :: 'b

definition pdf_path :: ustr where
  "pdf_path = ascii ''Power_Grid_Ltd.pdf''"

text \<open>
  The \<open>__main__\<close> block, lines 185--198: create the table if it is missing, ingest the
  document, train the chatbot on it. The document is read twice (lines 45 and 76);
  both reads give the extractor's one result for the path.
\<close>

definition main :: "'b services \<Rightarrow> 'b app_state \<Rightarrow> py_error + 'b app_state" where
  "main svc st =
     (let db = create_table (app_db st)
      in case compute_and_store_embeddings (model_encode svc) (pdf_extract_text svc pdf_path) db of
           Inl err \<Rightarrow> Inl err
         | Inr db' \<Rightarrow>
             Inr \<lparr>app_db = db',
                  app_bot = train_chatbot (trainer_train svc) (pdf_extract_text svc pdf_path) (app_bot st)\<rparr>)"

abbreviation spec_document :: ustr where
  "spec_document \<equiv> ascii ''1.2 Revenue grew 10%.\<newline>\<newline>Profit fell 2%.''"

abbreviation demo_services :: "unit services" where
  "demo_services \<equiv> example_services\<lparr>pdf_extract_text := \<lambda>p. Inr spec_document\<rparr>"

section \<open>Lemmas\<close>

lemma main_eq:
  "main svc st =
     Inr \<lparr>app_db = (if extract_pdf_text (pdf_extract_text svc pdf_path) = [] then create_table (app_db st)
                    else Some ((the (create_table (app_db st)))\<lparr>
                      rows := inserted_rows (seq (the (create_table (app_db st))))
                        (zip (extract_pdf_text (pdf_extract_text svc pdf_path))
                             (map (model_encode svc) (extract_pdf_text (pdf_extract_text svc pdf_path)))),
                      seq := seq (the (create_table (app_db st))) + length (extract_pdf_text (pdf_extract_text svc pdf_path))\<rparr>)),
          app_bot = train_chatbot (trainer_train svc) (pdf_extract_text svc pdf_path) (app_bot st)\<rparr>"
  by (simp add: main_def compute_and_store_embeddings_eq create_table_def split: option.splits)

lemma create_table_corpus_inv:
  "(case db of None \<Rightarrow> True | Some t \<Rightarrow> corpus_inv d t) \<Longrightarrow> \<exists>t. create_table db = Some t \<and> corpus_inv d t"
  by (auto simp: create_table_def empty_table_def corpus_inv_def table_inv_def split: option.splits)

section \<open>Claims\<close>

text \<open>
  C13: Start-up always completes: whatever the sqlite file held and whatever the
  extractor returns, \<open>main\<close> raises nothing and leaves a store with the table.
\<close>

theorem main_succeeds: "\<exists>st'. main svc st = Inr st' \<and> app_db st' \<noteq> None"
  by (simp add: main_eq create_table_def split: option.splits)

text \<open>
  C14: After start-up with an encoder of fixed dimension \<open>d\<close>, from a missing
  table or a table satisfying the corpus invariant, the table satisfies the corpus
  invariant; when the document yields chunks, loading the store gives exactly those
  chunks with their embeddings.
\<close>

theorem main_corpus_inv:
  assumes "\<forall>c. length (model_encode svc c) = d"
    and "case app_db st of None \<Rightarrow> True | Some t \<Rightarrow> corpus_inv d t"
    and "main svc st = Inr st'"
  shows "\<exists>t'. app_db st' = Some t' \<and> corpus_inv d t' \<and>
           (extract_pdf_text (pdf_extract_text svc pdf_path) \<noteq> [] \<longrightarrow>
              load_data_from_db (app_db st') =
                Inr (extract_pdf_text (pdf_extract_text svc pdf_path),
                     map (model_encode svc) (extract_pdf_text (pdf_extract_text svc pdf_path))))"
proof -
  let ?cs = "extract_pdf_text (pdf_extract_text svc pdf_path)"
  obtain t where t: "create_table (app_db st) = Some t" and inv: "corpus_inv d t"
    using create_table_corpus_inv [OF assms(2)] by blast
  have "\<exists>t'. compute_and_store_embeddings (model_encode svc) (pdf_extract_text svc pdf_path) (Some t) = Inr (Some t')"
    by (simp add: compute_and_store_embeddings_eq)
  then obtain t' where c: "compute_and_store_embeddings (model_encode svc) (pdf_extract_text svc pdf_path) (Some t) = Inr (Some t')"
    by blast
  from assms(3) have st': "app_db st' = Some t'"
    by (auto simp: main_def t c)
  have "corpus_inv d t'" by (rule corpus_inv_compute_and_store [OF inv assms(1) c])
  moreover have "load_data_from_db (Some t') = Inr (?cs, map (model_encode svc) ?cs)" if "?cs \<noteq> []"
  proof -
    have dim: "list_all (\<lambda>x. length x = d) (map snd (zip ?cs (map (model_encode svc) ?cs)))"
      using assms(1) by (simp add: list_all_iff)
    from c that have "t' = t\<lparr>rows := inserted_rows (seq t) (zip ?cs (map (model_encode svc) ?cs)), seq := seq t + length ?cs\<rparr>"
      by (simp add: compute_and_store_embeddings_eq)
    with load_inserted [OF dim] show ?thesis by simp
  qed
  ultimately show ?thesis using st' by simp
qed

lemma main_corpus_inv_witness:
  "(\<forall>c. length (model_encode demo_services c) = 2) \<and>
   (case app_db \<lparr>app_db = None, app_bot = ()\<rparr> of None \<Rightarrow> True | Some t \<Rightarrow> corpus_inv 2 t) \<and>
   main demo_services \<lparr>app_db = None, app_bot = ()\<rparr> =
     Inr \<lparr>app_db = Some \<lparr>rows = [\<lparr>row_id = 1, row_chunk = spec_document, row_embedding = [1, 0]\<rparr>], seq = 1\<rparr>,
          app_bot = ()\<rparr> \<and>
   load_data_from_db (Some \<lparr>rows = [\<lparr>row_id = 1, row_chunk = spec_document, row_embedding = [1, 0]\<rparr>], seq = 1\<rparr>) =
     Inr ([spec_document], [[1, 0]])"
proof -
  have e: "extract_pdf_text (Inr spec_document) = [spec_document]" by (simp add: segment_eval)
  have h1: "\<forall>c. length (model_encode demo_services c) = 2" by simp
  have h2: "case app_db \<lparr>app_db = None, app_bot = ()\<rparr> of None \<Rightarrow> True | Some t \<Rightarrow> corpus_inv 2 t" by simp
  have h3: "main demo_services \<lparr>app_db = None, app_bot = ()\<rparr> =
     Inr \<lparr>app_db = Some \<lparr>rows = [\<lparr>row_id = 1, row_chunk = spec_document, row_embedding = [1, 0]\<rparr>], seq = 1\<rparr>,
          app_bot = ()\<rparr>"
    by (simp add: main_eq e create_table_def empty_table_def train_chatbot_def)
  from main_corpus_inv [OF h1 h2 h3] have
    "load_data_from_db (Some \<lparr>rows = [\<lparr>row_id = 1, row_chunk = spec_document, row_embedding = [1, 0]\<rparr>], seq = 1\<rparr>) =
     Inr ([spec_document], [[1, 0]])"
    by (simp add: e)
  with h1 h2 h3 show ?thesis by blast
qed

text \<open>
  C15: Start-up trains the chatbot on the chunks it stored: when the document
  yields chunks, the conversation given to the trainer is built from exactly the
  chunks the table then holds, in rowid order.
\<close>

theorem main_trains_on_stored_chunks:
  assumes "main svc st = Inr st'" and "extract_pdf_text (pdf_extract_text svc pdf_path) \<noteq> []"
  shows "\<exists>t'. app_db st' = Some t' \<and>
           app_bot st' = trainer_train svc (app_bot st) (conversation (qa_pairs (map row_chunk (select_all t'))))"
proof -
  let ?cs = "extract_pdf_text (pdf_extract_text svc pdf_path)"
  let ?t = "the (create_table (app_db st))"
  let ?t' = "?t\<lparr>rows := inserted_rows (seq ?t) (zip ?cs (map (model_encode svc) ?cs)), seq := seq ?t + length ?cs\<rparr>"
  from assms have st': "st' = \<lparr>app_db = Some ?t', app_bot = train_chatbot (trainer_train svc) (pdf_extract_text svc pdf_path) (app_bot st)\<rparr>"
    by (simp add: main_eq)
  have "map row_chunk (select_all ?t') = ?cs"
    by (simp add: select_all_inserted inserted_rows_fields)
  with st' show ?thesis by (simp add: train_chatbot_def)
qed

lemma main_trains_on_stored_chunks_witness:
  "main demo_services \<lparr>app_db = None, app_bot = ()\<rparr> =
     Inr \<lparr>app_db = Some \<lparr>rows = [\<lparr>row_id = 1, row_chunk = spec_document, row_embedding = [1, 0]\<rparr>], seq = 1\<rparr>,
          app_bot = ()\<rparr> \<and>
   extract_pdf_text (pdf_extract_text demo_services pdf_path) \<noteq> [] \<and>
   map row_chunk (select_all \<lparr>rows = [\<lparr>row_id = 1, row_chunk = spec_document, row_embedding = [1, 0]\<rparr>], seq = 1\<rparr>) =
     [spec_document]"
proof -
  have e: "extract_pdf_text (Inr spec_document) = [spec_document]" by (simp add: segment_eval)
  have h1: "main demo_services \<lparr>app_db = None, app_bot = ()\<rparr> =
     Inr \<lparr>app_db = Some \<lparr>rows = [\<lparr>row_id = 1, row_chunk = spec_document, row_embedding = [1, 0]\<rparr>], seq = 1\<rparr>,
          app_bot = ()\<rparr>"
    by (simp add: main_eq e create_table_def empty_table_def train_chatbot_def)
  have h2: "extract_pdf_text (pdf_extract_text demo_services pdf_path) \<noteq> []" by (simp add: e)
  from main_trains_on_stored_chunks [OF h1 h2] have
    "map row_chunk (select_all \<lparr>rows = [\<lparr>row_id = 1, row_chunk = spec_document, row_embedding = [1, 0]\<rparr>], seq = 1\<rparr>) =
     [spec_document]"
    by (simp add: select_all_def)
  with h1 h2 show ?thesis by blast
qed

subsection \<open>The specification's scenario\<close>

text \<open>
  The specification's end-to-end scenario, run on the code with an encoder that
  embeds every text alike and a similarity that scores every sentence alike. Start-up
  on the document "1.2 Revenue grew 10%.\n\nProfit fell 2%." stores it as one chunk,
  and the query "How did revenue perform?" is answered from that chunk with both of
  its sentences (joined by a space, the newline kept) and source "Extracted from
  PDF", not with the specification's "Revenue grew 10%." alone.
\<close>

lemma spec_example_end_to_end:
  "main demo_services \<lparr>app_db = None, app_bot = ()\<rparr> =
     Inr \<lparr>app_db = Some \<lparr>rows = [\<lparr>row_id = 1, row_chunk = spec_document, row_embedding = [1, 0]\<rparr>], seq = 1\<rparr>,
          app_bot = ()\<rparr> \<and>
   fst (query demo_services (Some \<lparr>rows = [\<lparr>row_id = 1, row_chunk = spec_document, row_embedding = [1, 0]\<rparr>], seq = 1\<rparr>)
          () (Some (ascii ''How did revenue perform?''))) =
     Inr (pdf_response (ascii ''1.2 Revenue grew 10%. \<newline>Profit fell 2%.'') 1)"
proof -
  let ?t = "\<lparr>rows = [\<lparr>row_id = 1, row_chunk = spec_document, row_embedding = [1, 0]\<rparr>], seq = 1\<rparr>"
  let ?q = "ascii ''How did revenue perform?''"
  have e: "extract_pdf_text (Inr spec_document) = [spec_document]" by (simp add: segment_eval)
  have m: "main demo_services \<lparr>app_db = None, app_bot = ()\<rparr> = Inr \<lparr>app_db = Some ?t, app_bot = ()\<rparr>"
    by (simp add: main_eq e create_table_def empty_table_def train_chatbot_def)
  have inv: "corpus_inv 2 ?t" by (simp add: e corpus_inv_def table_inv_def str_defs)
  have r: "request_text (Some ?q) = ?q" by (simp add: request_text_def str_defs)
  have ne: "?q \<noteq> []" by (simp add: ascii_def)
  have s: "split_sentences spec_document = [ascii ''1.2 Revenue grew 10%.'', ascii ''\<newline>Profit fell 2%.'']"
    by (simp add: sentence_eval)
  have x: "extract_best_sentence (\<lambda>a b. 0) spec_document ?q = ascii ''1.2 Revenue grew 10%. \<newline>Profit fell 2%.''"
    unfolding extract_best_sentence_def best_sentences_def s by (simp add: ascii_def)
  have p: "py_strip (ascii ''1.2 Revenue grew 10%. \<newline>Profit fell 2%.'') = ascii ''1.2 Revenue grew 10%. \<newline>Profit fell 2%.''"
    by (simp add: str_defs)
  have rd: "round2 1 = 1" by (simp add: round2_def round_half_even_def)
  have "fst (query demo_services (Some ?t) () (Some ?q)) =
          Inr (pdf_response (ascii ''1.2 Revenue grew 10%. \<newline>Profit fell 2%.'') 1)"
    using query_declined [of "Some ?q" demo_services "()", unfolded r, OF ne, of _ 0 "()" "Some ?t"]
      semantic_fallback_corpus [OF inv, of demo_services ?q]
    by (simp add: example_search x p rd)
  with m show ?thesis by simp
qed

end
